theory Spec2Isabelle
  imports Complex_Main "HOL-Library.Log_Nat"
begin

section \<open>Numbers (IEEE 754 double precision)\<close>

text \<open>
  A TypeScript \<open>number\<close> is a double: a finite value, an infinity or NaN. The finite
  doubles are the reals \<open>m * 2 ^ e\<close> with \<open>\<bar>m\<bar> < 2 ^ 53\<close> and \<open>- 1074 \<le> e \<le> 971\<close>; the
  two zeros are one value here (no operation of this program tells them apart). A
  \<open>Date\<close> is modelled by the integer that \<open>getTime()\<close> returns (milliseconds). An
  address is a \<open>string\<close>.
\<close>

datatype number = Finite real | PosInf | NegInf | NaN

text \<open>Rounding to an integer, a tie going to the even neighbour.\<close>

definition roundTiesToEven :: "real \<Rightarrow> int" where
  "roundTiesToEven x =
     (let f = \<lfloor>x\<rfloor>; d = x - of_int f
      in if d < 1 / 2 then f else if 1 / 2 < d then f + 1
         else if even f then f else f + 1)"

text \<open>For \<open>x > 0\<close>, the exponent \<open>e\<close> with \<open>2 ^ e \<le> x < 2 ^ (e + 1)\<close>.\<close>

definition binaryExponent :: "real \<Rightarrow> int" where
  "binaryExponent x =
     (if 1 \<le> x then int (floorlog 2 (nat \<lfloor>x\<rfloor>)) - 1
      else - int (floorlog 2 (nat (\<lceil>1 / x\<rceil> - 1))))"

text \<open>
  The double nearest to a real (round to nearest, ties to even): 53 significant bits,
  exponents from -1022 (below that the spacing stays \<open>2 ^ - 1074\<close>), overflow to an
  infinity. Every arithmetic operation returns the exact result rounded this way, and a
  decimal literal of the source denotes the double nearest to it.
\<close>

definition toDouble :: "real \<Rightarrow> number" where
  "toDouble x =
     (if x = 0 then Finite 0
      else
        (let e = max (binaryExponent \<bar>x\<bar>) (- 1022);
             q = 2 powi (e - 52);
             y = of_int (roundTiesToEven (x / q)) * q
         in if 2 powi 1024 \<le> \<bar>y\<bar> then (if 0 < x then PosInf else NegInf)
            else Finite y))"

text \<open>
  The operators \<open>+\<close>, \<open>-\<close>, \<open>*\<close> and the comparisons \<open><\<close>, \<open>\<le>\<close> of the
  language: NaN is absorbing for the arithmetic and makes every comparison false.
\<close>

instantiation number :: "{plus, minus, times, ord}"
begin

fun plus_number :: "number \<Rightarrow> number \<Rightarrow> number" where
  "Finite a + Finite b = toDouble (a + b)"
| "NaN + b = NaN"
| "a + NaN = NaN"
| "PosInf + NegInf = NaN"
| "NegInf + PosInf = NaN"
| "PosInf + b = PosInf"
| "a + PosInf = PosInf"
| "NegInf + b = NegInf"
| "a + NegInf = NegInf"

fun minus_number :: "number \<Rightarrow> number \<Rightarrow> number" where
  "Finite a - Finite b = toDouble (a - b)"
| "NaN - b = NaN"
| "a - NaN = NaN"
| "PosInf - PosInf = NaN"
| "NegInf - NegInf = NaN"
| "PosInf - b = PosInf"
| "a - PosInf = NegInf"
| "NegInf - b = NegInf"
| "a - NegInf = PosInf"

fun times_number :: "number \<Rightarrow> number \<Rightarrow> number" where
  "Finite a * Finite b = toDouble (a * b)"
| "NaN * b = NaN"
| "a * NaN = NaN"
| "PosInf * Finite b = (if b = 0 then NaN else if 0 < b then PosInf else NegInf)"
| "NegInf * Finite b = (if b = 0 then NaN else if 0 < b then NegInf else PosInf)"
| "Finite a * PosInf = (if a = 0 then NaN else if 0 < a then PosInf else NegInf)"
| "Finite a * NegInf = (if a = 0 then NaN else if 0 < a then NegInf else PosInf)"
| "PosInf * PosInf = PosInf"
| "PosInf * NegInf = NegInf"
| "NegInf * PosInf = NegInf"
| "NegInf * NegInf = PosInf"

fun less_number :: "number \<Rightarrow> number \<Rightarrow> bool" where
  "Finite a < Finite b \<longleftrightarrow> a < b"
| "Finite a < PosInf \<longleftrightarrow> True"
| "NegInf < Finite b \<longleftrightarrow> True"
| "NegInf < PosInf \<longleftrightarrow> True"
| "(a :: number) < b \<longleftrightarrow> False"

fun less_eq_number :: "number \<Rightarrow> number \<Rightarrow> bool" where
  "Finite a \<le> Finite b \<longleftrightarrow> a \<le> b"
| "Finite a \<le> PosInf \<longleftrightarrow> True"
| "NegInf \<le> Finite b \<longleftrightarrow> True"
| "NegInf \<le> PosInf \<longleftrightarrow> True"
| "PosInf \<le> PosInf \<longleftrightarrow> True"
| "NegInf \<le> NegInf \<longleftrightarrow> True"
| "(a :: number) \<le> b \<longleftrightarrow> False"

instance ..

end

text \<open>
  \<open>Math.round\<close>: the nearest integer, a tie going towards plus infinity (the result
  is exact: a double of magnitude \<open>2 ^ 52\<close> or more is an integer already).
  \<open>Math.max\<close> and \<open>Math.min\<close> return NaN when an argument is NaN.
\<close>

definition Math_round :: "number \<Rightarrow> number" where
  "Math_round x = (case x of Finite r \<Rightarrow> Finite (of_int \<lfloor>r + 1 / 2\<rfloor>) | _ \<Rightarrow> x)"

definition Math_max :: "number \<Rightarrow> number \<Rightarrow> number" where
  "Math_max a b = (if a = NaN \<or> b = NaN then NaN else if a < b then b else a)"

definition Math_min :: "number \<Rightarrow> number \<Rightarrow> number" where
  "Math_min a b = (if a = NaN \<or> b = NaN then NaN else if b < a then b else a)"

section \<open>Data model (types/defi.d.ts)\<close>

datatype TrustLevel = Red | Yellow | Green

record SafetyIndicators =
  rugPullRisk :: number
  liquidityScore :: number
  holderDistribution :: number
  contractVerified :: bool
  honeypotDetected :: bool
  hasRenounced :: bool

text \<open>\<open>Omit<ContractMetadata, 'trustLevel'>\<close>, the argument type of the classifier.\<close>

record ContractMetadata =
  name :: string
  address :: string
  deployer :: string
  contractAge :: number
  transactionVolume :: number
  safetyScore :: number

record RugPullCheckResult =
  contractAddress :: string
  isUnsafe :: bool
  riskLevel :: TrustLevel
  indicators :: SafetyIndicators
  miterSignals :: "string list"
  timestamp :: int

section \<open>Configuration (config/platforms.ts)\<close>

record TierThresholds =
  minSafetyScore :: number
  maxRugPullRisk :: number
  minContractAge :: number
  minTransactionVolume :: number

text \<open>The source's \<open>red\<close> entry is an empty object and is never read.\<close>

record TrustLevelThresholds =
  green :: TierThresholds
  yellow :: TierThresholds

definition TRUST_LEVEL_THRESHOLDS :: TrustLevelThresholds where
  "TRUST_LEVEL_THRESHOLDS =
     \<lparr> green = \<lparr> minSafetyScore = Finite 80, maxRugPullRisk = Finite 20,
                 minContractAge = Finite 30, minTransactionVolume = Finite 100000 \<rparr>,
       yellow = \<lparr> minSafetyScore = Finite 50, maxRugPullRisk = Finite 50,
                  minContractAge = Finite 7, minTransactionVolume = Finite 10000 \<rparr> \<rparr>"

record SafetyCheckIntervals =
  rugPullCheck :: int
  contractAnalysis :: int
  platformListSync :: int

definition SAFETY_CHECK_INTERVALS :: SafetyCheckIntervals where
  "SAFETY_CHECK_INTERVALS =
     \<lparr> rugPullCheck = 5 * 60 * 1000,
       contractAnalysis = 10 * 60 * 1000,
       platformListSync = 15 * 60 * 1000 \<rparr>"

section \<open>Trust level utilities (utils/trust-level.ts)\<close>

definition calculateTrustLevel :: "ContractMetadata \<Rightarrow> SafetyIndicators \<Rightarrow> TrustLevel" where
  "calculateTrustLevel metadata ind =
     (if honeypotDetected ind \<or> \<not> contractVerified ind then Red
      else if rugPullRisk ind > maxRugPullRisk (yellow TRUST_LEVEL_THRESHOLDS) then Red
      else if safetyScore metadata \<ge> minSafetyScore (green TRUST_LEVEL_THRESHOLDS) \<and>
              rugPullRisk ind \<le> maxRugPullRisk (green TRUST_LEVEL_THRESHOLDS) \<and>
              contractAge metadata \<ge> minContractAge (green TRUST_LEVEL_THRESHOLDS) \<and>
              transactionVolume metadata \<ge> minTransactionVolume (green TRUST_LEVEL_THRESHOLDS)
           then Green
      else if safetyScore metadata \<ge> minSafetyScore (yellow TRUST_LEVEL_THRESHOLDS) \<and>
              rugPullRisk ind \<le> maxRugPullRisk (yellow TRUST_LEVEL_THRESHOLDS) \<and>
              contractAge metadata \<ge> minContractAge (yellow TRUST_LEVEL_THRESHOLDS) \<and>
              transactionVolume metadata \<ge> minTransactionVolume (yellow TRUST_LEVEL_THRESHOLDS)
           then Yellow
      else Red)"

text \<open>
  The source updates the local \<open>score\<close> statement by statement; \<open>0.3\<close> is the
  double nearest to three tenths.
\<close>

definition calculateSafetyScore :: "SafetyIndicators \<Rightarrow> number" where
  "calculateSafetyScore ind =
     (let score = Finite 50;
          score = (if contractVerified ind then score + Finite 15 else score);
          score = (if hasRenounced ind then score + Finite 10 else score);
          score = (if liquidityScore ind > Finite 70 then score + Finite 10 else score);
          score = (if holderDistribution ind > Finite 60 then score + Finite 10 else score);
          score = (if honeypotDetected ind then score - Finite 40 else score);
          score = score - rugPullRisk ind * toDouble 0.3
      in Math_max (Finite 0) (Math_min (Finite 100) (Math_round score)))"

text \<open>\<open>signals.push\<close> appends at the end of the array.\<close>

definition generateMiterSignals :: "SafetyIndicators \<Rightarrow> TrustLevel \<Rightarrow> string list" where
  "generateMiterSignals ind trustLevel =
     (let signals = [];
          signals = (if trustLevel = Red then signals @ [''HIGH_RISK''] else signals);
          signals = (if honeypotDetected ind then signals @ [''HONEYPOT_DETECTED'']
                     else signals);
          signals = (if \<not> contractVerified ind then signals @ [''UNVERIFIED_CONTRACT'']
                     else signals);
          signals = (if rugPullRisk ind > Finite 70 then signals @ [''CRITICAL_RUG_RISK'']
                     else if rugPullRisk ind > Finite 40 then signals @ [''ELEVATED_RUG_RISK'']
                     else signals);
          signals = (if liquidityScore ind < Finite 30 then signals @ [''LOW_LIQUIDITY'']
                     else signals);
          signals = (if holderDistribution ind < Finite 30 then signals @ [''CONCENTRATED_HOLDERS'']
                     else signals);
          signals = (if \<not> hasRenounced ind then signals @ [''OWNERSHIP_NOT_RENOUNCED'']
                     else signals)
      in signals)"

section \<open>Rug pull checker service (services/rug-pull-checker.ts)\<close>

text \<open>A rejected promise (a thrown exception) with its reason.\<close>

datatype error = Rejected string

text \<open>
  The fields of the class. The \<open>Set\<close> of monitored contracts iterates in insertion
  order and holds no element twice: a list, extended at the end by \<open>add\<close>.
\<close>

record RugPullChecker =
  checkCache :: "string \<rightharpoonup> RugPullCheckResult"
  monitoredContracts :: "string list"

definition newRugPullChecker :: RugPullChecker where
  "newRugPullChecker = \<lparr> checkCache = Map.empty, monitoredContracts = [] \<rparr>"

text \<open>
  The signal provider. The source's \<open>analyzeContract\<close> is a placeholder for a query
  that can fail in production, so the service below takes the provider as a parameter
  \<open>analyze\<close>; the placeholder is one instance.
\<close>

type_synonym provider = "string \<Rightarrow> error + SafetyIndicators"

definition calculateRugPullRisk :: "string \<Rightarrow> number" where
  "calculateRugPullRisk addr = Finite 30"

definition analyzeContract :: provider where
  "analyzeContract addr =
     Inr \<lparr> rugPullRisk = calculateRugPullRisk addr,
           liquidityScore = Finite 75, holderDistribution = Finite 70,
           contractVerified = True, honeypotDetected = False, hasRenounced = False \<rparr>"

text \<open>\<open>now\<close> is the clock value that \<open>new Date()\<close> reads inside \<open>isCacheValid\<close>.\<close>

definition isCacheValid :: "int \<Rightarrow> int \<Rightarrow> bool" where
  "isCacheValid now ts = (let diff = now - ts in diff < rugPullCheck SAFETY_CHECK_INTERVALS)"

text \<open>
  \<open>checkContract\<close> is an async function with one \<open>await\<close>. Its part before the
  \<open>await\<close> is the cache check (\<open>checkContract_cached\<close>: the cached result when it is
  served); its part after the \<open>await\<close> gets the settled provider call and builds,
  caches and returns the fresh result (\<open>checkContract_fresh\<close>), or rejects with the
  provider's error, the cache untouched. \<open>stamp\<close> is the clock value read by the
  \<open>new Date()\<close> of the result.
\<close>

definition checkContract_cached :: "int \<Rightarrow> string \<Rightarrow> RugPullChecker \<Rightarrow> RugPullCheckResult option" where
  "checkContract_cached now addr s =
     (case checkCache s addr of
        None \<Rightarrow> None
      | Some cached \<Rightarrow> if isCacheValid now (timestamp cached) then Some cached else None)"

definition checkContract_fresh ::
  "error + SafetyIndicators \<Rightarrow> int \<Rightarrow> string \<Rightarrow> RugPullChecker
     \<Rightarrow> (error + RugPullCheckResult) \<times> RugPullChecker" where
  "checkContract_fresh settled stamp addr s =
     (case settled of
        Inl e \<Rightarrow> (Inl e, s)
      | Inr ind \<Rightarrow>
          (let score = calculateSafetyScore ind;
               metadata = \<lparr> name = ''Contract'', address = addr,
                            deployer = ''Unknown'', contractAge = Finite 0,
                            transactionVolume = Finite 0, safetyScore = score \<rparr>;
               level = calculateTrustLevel metadata ind;
               signals = generateMiterSignals ind level;
               result = \<lparr> contractAddress = addr, isUnsafe = (level = Red),
                          riskLevel = level, indicators = ind, miterSignals = signals,
                          timestamp = stamp \<rparr>
           in (Inr result, s\<lparr> checkCache := (checkCache s)(addr \<mapsto> result) \<rparr>)))"

definition checkContract ::
  "provider \<Rightarrow> int \<Rightarrow> int \<Rightarrow> string \<Rightarrow> RugPullChecker
     \<Rightarrow> (error + RugPullCheckResult) \<times> RugPullChecker" where
  "checkContract analyze now stamp addr s =
     (case checkContract_cached now addr s of
        Some cached \<Rightarrow> (Inr cached, s)
      | None \<Rightarrow> checkContract_fresh (analyze addr) stamp addr s)"

definition startMonitoring ::
  "provider \<Rightarrow> int \<Rightarrow> int \<Rightarrow> string \<Rightarrow> RugPullChecker \<Rightarrow> (error + unit) \<times> RugPullChecker" where
  "startMonitoring analyze now stamp addr s =
     (if addr \<in> set (monitoredContracts s) then (Inr (), s)
      else
        (let s1 = s\<lparr> monitoredContracts := monitoredContracts s @ [addr] \<rparr>
         in case checkContract analyze now stamp addr s1 of
              (Inl e, s2) \<Rightarrow> (Inl e, s2)
            | (Inr r, s2) \<Rightarrow> (Inr (), s2)))"

definition stopMonitoring :: "string \<Rightarrow> RugPullChecker \<Rightarrow> RugPullChecker" where
  "stopMonitoring addr s =
     (let s1 = s\<lparr> monitoredContracts := removeAll addr (monitoredContracts s) \<rparr>
      in s1\<lparr> checkCache := (checkCache s1)(addr := None) \<rparr>)"

definition getMonitoredContracts :: "RugPullChecker \<Rightarrow> string list" where
  "getMonitoredContracts s = monitoredContracts s"

text \<open>
  \<open>Promise.allSettled(addresses.map((address) => this.checkContract(address)))\<close>:
  \<open>map\<close> starts every call in turn, and each runs up to its \<open>await\<close>, so every cache
  check reads the state \<open>s\<close> of the moment of the fan-out. The continuations then run
  one by one (\<open>settleChecks\<close>, in the order of the calls); a rejected call leaves its
  error in the list of outcomes and the others go on. \<open>Inr\<close> is a fulfilled outcome,
  \<open>Inl\<close> a rejected one. The calls of one fan-out read the same two clock values:
  \<open>now\<close> in the cache checks and \<open>stamp\<close> in the results.
\<close>

fun settleChecks ::
  "provider \<Rightarrow> int \<Rightarrow> (string \<times> RugPullCheckResult option) list \<Rightarrow> RugPullChecker
     \<Rightarrow> (error + RugPullCheckResult) list \<times> RugPullChecker" where
  "settleChecks analyze stamp [] s = ([], s)"
| "settleChecks analyze stamp ((a, started) # rest) s =
     (let (r, s1) = (case started of
                       Some cached \<Rightarrow> (Inr cached, s)
                     | None \<Rightarrow> checkContract_fresh (analyze a) stamp a s);
          (rs, s2) = settleChecks analyze stamp rest s1
      in (r # rs, s2))"

definition allSettledChecks ::
  "provider \<Rightarrow> int \<Rightarrow> int \<Rightarrow> string list \<Rightarrow> RugPullChecker
     \<Rightarrow> (error + RugPullCheckResult) list \<times> RugPullChecker" where
  "allSettledChecks analyze now stamp addresses s =
     settleChecks analyze stamp (map (\<lambda>a. (a, checkContract_cached now a s)) addresses) s"

text \<open>The outcomes of \<open>Promise.allSettled\<close> are awaited and dropped.\<close>

definition syncLiveMetadata ::
  "provider \<Rightarrow> int \<Rightarrow> int \<Rightarrow> RugPullChecker \<Rightarrow> (error + unit) \<times> RugPullChecker" where
  "syncLiveMetadata analyze now stamp s =
     (let (results, s1) = allSettledChecks analyze now stamp (monitoredContracts s) s
      in (Inr (), s1))"

definition trustLevelString :: "TrustLevel \<Rightarrow> string" where
  "trustLevelString l = (case l of Red \<Rightarrow> ''red'' | Yellow \<Rightarrow> ''yellow'' | Green \<Rightarrow> ''green'')"

fun Array_join :: "string \<Rightarrow> string list \<Rightarrow> string" where
  "Array_join sep [] = []"
| "Array_join sep [x] = x"
| "Array_join sep (x # y # ys) = x @ sep @ Array_join sep (y # ys)"

record FlagResult =
  shouldBlock :: bool
  reason :: string

definition flagUnsafeInteractions ::
  "provider \<Rightarrow> int \<Rightarrow> int \<Rightarrow> string \<Rightarrow> RugPullChecker
     \<Rightarrow> (error + FlagResult) \<times> RugPullChecker" where
  "flagUnsafeInteractions analyze now stamp addr s =
     (case checkContract analyze now stamp addr s of
        (Inl e, s1) \<Rightarrow> (Inl e, s1)
      | (Inr result, s1) \<Rightarrow>
          (Inr (if isUnsafe result then
                  \<lparr> shouldBlock = True,
                    reason = ''Contract flagged as '' @ trustLevelString (riskLevel result)
                             @ '': '' @ Array_join '', '' (miterSignals result) \<rparr>
                else if honeypotDetected (indicators result) then
                  \<lparr> shouldBlock = True,
                    reason = ''Honeypot detected - transaction may not be reversible'' \<rparr>
                else if rugPullRisk (indicators result) > Finite 70 then
                  \<lparr> shouldBlock = True, reason = ''Critical rug pull risk detected'' \<rparr>
                else
                  \<lparr> shouldBlock = False, reason = ''Contract passed safety checks'' \<rparr>),
           s1))"

text \<open>
  \<open>results.forEach((result, index) => ...)\<close> pairs each outcome with the address at
  its index; a later \<open>set\<close> of the same key replaces the earlier one.
\<close>

definition setRanking ::
  "(string \<rightharpoonup> TrustLevel) \<Rightarrow> string \<times> (error + RugPullCheckResult) \<Rightarrow> (string \<rightharpoonup> TrustLevel)" where
  "setRanking rankings p =
     (case snd p of
        Inr v \<Rightarrow> rankings(fst p \<mapsto> riskLevel v)
      | Inl e \<Rightarrow> rankings)"

definition getTrustRankings ::
  "provider \<Rightarrow> int \<Rightarrow> int \<Rightarrow> string list \<Rightarrow> RugPullChecker
     \<Rightarrow> (error + (string \<rightharpoonup> TrustLevel)) \<times> RugPullChecker" where
  "getTrustRankings analyze now stamp contractAddresses s =
     (let rankings = Map.empty;
          (results, s1) = allSettledChecks analyze now stamp contractAddresses s;
          rankings = foldl setRanking rankings (zip contractAddresses results)
      in (Inr rankings, s1))"

text \<open>
  The states of the service: the singleton starts empty and changes only through its
  public methods, whatever the provider answers and whatever the clock shows.
\<close>

inductive reachable :: "RugPullChecker \<Rightarrow> bool" where
  reach_new: "reachable newRugPullChecker"
| reach_check: "reachable s \<Longrightarrow> reachable (snd (checkContract analyze now stamp a s))"
| reach_start: "reachable s \<Longrightarrow> reachable (snd (startMonitoring analyze now stamp a s))"
| reach_stop: "reachable s \<Longrightarrow> reachable (stopMonitoring a s)"
| reach_sync: "reachable s \<Longrightarrow> reachable (snd (syncLiveMetadata analyze now stamp s))"
| reach_flag: "reachable s \<Longrightarrow> reachable (snd (flagUnsafeInteractions analyze now stamp a s))"
| reach_rankings: "reachable s \<Longrightarrow> reachable (snd (getTrustRankings analyze now stamp as s))"

text \<open>Every cached result carries the flag that \<open>checkContract\<close> gives it.\<close>

definition cacheConsistent :: "RugPullChecker \<Rightarrow> bool" where
  "cacheConsistent s = (\<forall>a r. checkCache s a = Some r \<longrightarrow> isUnsafe r = (riskLevel r = Red))"

definition cacheAllRed :: "RugPullChecker \<Rightarrow> bool" where
  "cacheAllRed s = (\<forall>a r. checkCache s a = Some r \<longrightarrow> riskLevel r = Red \<and> isUnsafe r)"

section \<open>The specification's reading of the pure functions\<close>

definition indicator :: "bool \<Rightarrow> int" where
  "indicator b = (if b then 1 else 0)"

text \<open>The baseline with the bonuses and the honeypot penalty: an integer.\<close>

definition baseScore :: "SafetyIndicators \<Rightarrow> int" where
  "baseScore ind =
     50 + 15 * indicator (contractVerified ind)
        + 10 * indicator (hasRenounced ind)
        + 10 * indicator (liquidityScore ind > Finite 70)
        + 10 * indicator (holderDistribution ind > Finite 60)
        - 40 * indicator (honeypotDetected ind)"

text \<open>
  The score as the specification words it, in exact arithmetic, for the rug-pull risk
  \<open>r\<close>: the weighted sum, rounded to the nearest integer, then clamped to the interval
  from 0 to 100.
\<close>

definition specSafetyScore :: "SafetyIndicators \<Rightarrow> real \<Rightarrow> real" where
  "specSafetyScore ind r =
     max 0 (min 100 (of_int (round (of_int (baseScore ind) - 0.3 * r))))"

text \<open>The advisory tags in the specification's order, each with its condition.\<close>

definition tagWhen :: "bool \<Rightarrow> string \<Rightarrow> string list" where
  "tagWhen c tag = (if c then [tag] else [])"

definition specSignals :: "SafetyIndicators \<Rightarrow> TrustLevel \<Rightarrow> string list" where
  "specSignals ind tier =
     tagWhen (tier = Red) ''HIGH_RISK'' @
     tagWhen (honeypotDetected ind) ''HONEYPOT_DETECTED'' @
     tagWhen (\<not> contractVerified ind) ''UNVERIFIED_CONTRACT'' @
     tagWhen (rugPullRisk ind > Finite 70) ''CRITICAL_RUG_RISK'' @
     tagWhen (\<not> rugPullRisk ind > Finite 70 \<and> rugPullRisk ind > Finite 40)
       ''ELEVATED_RUG_RISK'' @
     tagWhen (liquidityScore ind < Finite 30) ''LOW_LIQUIDITY'' @
     tagWhen (holderDistribution ind < Finite 30) ''CONCENTRATED_HOLDERS'' @
     tagWhen (\<not> hasRenounced ind) ''OWNERSHIP_NOT_RENOUNCED''"

text \<open>The scenario of the specification: the placeholder provider's indicators.\<close>

definition scenarioIndicators :: SafetyIndicators where
  "scenarioIndicators =
     \<lparr> rugPullRisk = Finite 30, liquidityScore = Finite 75, holderDistribution = Finite 70,
       contractVerified = True, honeypotDetected = False, hasRenounced = False \<rparr>"

definition allFlagsIndicators :: SafetyIndicators where
  "allFlagsIndicators =
     \<lparr> rugPullRisk = Finite 80, liquidityScore = Finite 10, holderDistribution = Finite 10,
       contractVerified = False, honeypotDetected = True, hasRenounced = False \<rparr>"

definition boundaryMetadata :: "string \<Rightarrow> number \<Rightarrow> number \<Rightarrow> number \<Rightarrow> ContractMetadata" where
  "boundaryMetadata a score age volume =
     \<lparr> name = ''Contract'', address = a, deployer = ''Unknown'',
       contractAge = age, transactionVolume = volume, safetyScore = score \<rparr>"

section \<open>Example inputs\<close>

text \<open>An outcome of \<open>Promise.allSettled\<close> with status \<open>fulfilled\<close>.\<close>

definition fulfilled :: "'e + 'a \<Rightarrow> bool" where
  "fulfilled r = (case r of Inr v \<Rightarrow> True | Inl e \<Rightarrow> False)"

text \<open>
  The result that \<open>checkContract\<close> builds from the placeholder provider at the clock
  value \<open>stamp\<close>, and the service that holds only this result.
\<close>

definition scenarioResult :: "string \<Rightarrow> int \<Rightarrow> RugPullCheckResult" where
  "scenarioResult a stamp =
     \<lparr> contractAddress = a, isUnsafe = True, riskLevel = Red,
       indicators = scenarioIndicators,
       miterSignals = [''HIGH_RISK'', ''OWNERSHIP_NOT_RENOUNCED''],
       timestamp = stamp \<rparr>"

definition scenarioChecker :: "string \<Rightarrow> int \<Rightarrow> RugPullChecker" where
  "scenarioChecker a stamp =
     newRugPullChecker\<lparr> checkCache := [a \<mapsto> scenarioResult a stamp] \<rparr>"

text \<open>Indicators with every signal at its best, and the result built from them.\<close>

definition perfectIndicators :: SafetyIndicators where
  "perfectIndicators =
     \<lparr> rugPullRisk = Finite 0, liquidityScore = Finite 100, holderDistribution = Finite 100,
       contractVerified = True, honeypotDetected = False, hasRenounced = True \<rparr>"

definition perfectResult :: "string \<Rightarrow> int \<Rightarrow> RugPullCheckResult" where
  "perfectResult a stamp =
     \<lparr> contractAddress = a, isUnsafe = True, riskLevel = Red,
       indicators = perfectIndicators, miterSignals = [''HIGH_RISK''],
       timestamp = stamp \<rparr>"

text \<open>
  Indicators of a verified contract with a rug-pull risk of 80 and nothing else amiss,
  and the result built from them.
\<close>

definition criticalRiskIndicators :: SafetyIndicators where
  "criticalRiskIndicators =
     \<lparr> rugPullRisk = Finite 80, liquidityScore = Finite 75, holderDistribution = Finite 70,
       contractVerified = True, honeypotDetected = False, hasRenounced = True \<rparr>"

definition criticalResult :: "string \<Rightarrow> int \<Rightarrow> RugPullCheckResult" where
  "criticalResult a stamp =
     \<lparr> contractAddress = a, isUnsafe = True, riskLevel = Red,
       indicators = criticalRiskIndicators,
       miterSignals = [''HIGH_RISK'', ''CRITICAL_RUG_RISK''],
       timestamp = stamp \<rparr>"

text \<open>
  A service whose cache holds one given result, and two results that are not Red (no
  call of \<open>checkContract\<close> builds them; they exercise the later tests of
  \<open>flagUnsafeInteractions\<close>).
\<close>

definition cachedChecker :: "RugPullCheckResult \<Rightarrow> RugPullChecker" where
  "cachedChecker r = newRugPullChecker\<lparr> checkCache := [contractAddress r \<mapsto> r] \<rparr>"

definition greenResult :: "string \<Rightarrow> int \<Rightarrow> RugPullCheckResult" where
  "greenResult a stamp =
     \<lparr> contractAddress = a, isUnsafe = False, riskLevel = Green,
       indicators = perfectIndicators, miterSignals = [], timestamp = stamp \<rparr>"

definition yellowCriticalResult :: "string \<Rightarrow> int \<Rightarrow> RugPullCheckResult" where
  "yellowCriticalResult a stamp =
     \<lparr> contractAddress = a, isUnsafe = False, riskLevel = Yellow,
       indicators = criticalRiskIndicators, miterSignals = [''CRITICAL_RUG_RISK''],
       timestamp = stamp \<rparr>"

text \<open>A provider that fails for one address and answers as the placeholder otherwise.\<close>

definition flakyProvider :: provider where
  "flakyProvider a =
     (if a = ''0xbad'' then Inl (Rejected ''provider unavailable'') else analyzeContract a)"

section \<open>Properties of the numbers\<close>

lemma roundTiesToEven_error: "\<bar>of_int (roundTiesToEven x) - x\<bar> \<le> 1 / 2"
proof -
  have "of_int \<lfloor>x\<rfloor> \<le> x" and "x < of_int \<lfloor>x\<rfloor> + 1" by linarith+
  then show ?thesis by (auto simp add: roundTiesToEven_def Let_def)
qed

lemma roundTiesToEven_of_int [simp]: "roundTiesToEven (of_int n) = n"
  by (simp add: roundTiesToEven_def)

lemma floorlog_two_bounds:
  assumes "0 < n"
  shows "0 < floorlog 2 n" and "(2::real) ^ (floorlog 2 n - 1) \<le> real n"
    and "real n + 1 \<le> (2::real) ^ floorlog 2 n"
proof -
  from floorlog_bounds [of n 2] assms
  have b: "2 ^ (floorlog 2 n - 1) \<le> n" "n < 2 ^ floorlog 2 n" by simp_all
  show "0 < floorlog 2 n" using assms by (simp add: floorlog_def)
  from b(1) have "real (2 ^ (floorlog 2 n - 1)) \<le> real n" by (rule iffD2 [OF of_nat_le_iff])
  then show "(2::real) ^ (floorlog 2 n - 1) \<le> real n" by simp
  from b(2) have "n + 1 \<le> 2 ^ floorlog 2 n" by simp
  then have "real (n + 1) \<le> real (2 ^ floorlog 2 n)" by (rule iffD2 [OF of_nat_le_iff])
  then show "real n + 1 \<le> (2::real) ^ floorlog 2 n" by simp
qed

lemma powi_neg_nat: "2 powi (- int L) = 1 / (2::real) ^ L"
  by (simp add: power_int_minus_divide)

lemma powi_neg_nat_succ:
  assumes L: "0 < L"
  shows "2 powi (- int L + 1) = 1 / (2::real) ^ (L - 1)"
proof -
  have eq: "- int L + 1 = - int (L - 1)" using L by simp
  show ?thesis unfolding eq by (simp only: power_int_minus_divide power_int_of_nat)
qed

lemma powi_nat_pred_succ:
  assumes L: "0 < L"
  shows "2 powi (int L - 1 + 1) = (2::real) ^ L" and "2 powi (int L - 1) = (2::real) ^ (L - 1)"
proof -
  have "int L - 1 + 1 = int L" by simp
  then show "2 powi (int L - 1 + 1) = (2::real) ^ L" by (simp only: power_int_of_nat)
  have "int L - 1 = int (L - 1)" using L by simp
  then show "2 powi (int L - 1) = (2::real) ^ (L - 1)" by (simp only: power_int_of_nat)
qed

lemma binaryExponent_bounds_ge1:
  assumes "1 \<le> x"
  shows "2 powi (binaryExponent x) \<le> x \<and> x < 2 powi (binaryExponent x + 1)"
proof -
  define n where "n = nat \<lfloor>x\<rfloor>"
  have fl: "1 \<le> \<lfloor>x\<rfloor>" using assms by linarith
  then have "0 < \<lfloor>x\<rfloor>" by linarith
  then have n0: "0 < n" unfolding n_def by (simp only: zero_less_nat_eq)
  have "0 \<le> \<lfloor>x\<rfloor>" using fl by linarith
  then have rn: "real n = of_int \<lfloor>x\<rfloor>" unfolding n_def by (rule of_nat_nat)
  have n1: "real n \<le> x" unfolding rn by linarith
  have n2: "x < real n + 1" unfolding rn by linarith
  define L where "L = floorlog 2 n"
  note b = floorlog_two_bounds [OF n0, folded L_def]
  have e: "binaryExponent x = int L - 1"
    using assms by (simp add: binaryExponent_def L_def n_def)
  from b(2) n1 have lo: "(2::real) ^ (L - 1) \<le> x" by linarith
  from b(3) n2 have hi: "x < (2::real) ^ L" by linarith
  from lo hi show ?thesis
    unfolding e by (simp only: powi_nat_pred_succ [OF b(1)])
qed

lemma binaryExponent_bounds_lt1:
  assumes "0 < x" and "x < 1"
  shows "2 powi (binaryExponent x) \<le> x \<and> x < 2 powi (binaryExponent x + 1)"
proof -
  from assms have inv: "1 < 1 / x" by simp
  define m where "m = nat (\<lceil>1 / x\<rceil> - 1)"
  have c: "2 \<le> \<lceil>1 / x\<rceil>" using inv by linarith
  then have "0 < \<lceil>1 / x\<rceil> - 1" by linarith
  then have m0: "0 < m" unfolding m_def by (simp only: zero_less_nat_eq)
  have nn: "0 \<le> \<lceil>1 / x\<rceil> - 1" using c by linarith
  have rm: "real m = of_int (\<lceil>1 / x\<rceil> - 1)"
    unfolding m_def using nn by (rule of_nat_nat)
  have m1: "real m < 1 / x"
    unfolding rm by (simp only: of_int_diff of_int_1, linarith)
  have m2: "1 / x \<le> real m + 1"
    unfolding rm by (simp only: of_int_diff of_int_1, linarith)
  define L where "L = floorlog 2 m"
  note b = floorlog_two_bounds [OF m0, folded L_def]
  have e: "binaryExponent x = - int L"
    using assms(2) by (simp add: binaryExponent_def L_def m_def)
  from b(3) m2 have hi: "1 / x \<le> (2::real) ^ L" by linarith
  from b(2) m1 have lo: "(2::real) ^ (L - 1) < 1 / x" by linarith
  have pL: "0 < (2::real) ^ L" and pL1: "0 < (2::real) ^ (L - 1)" by simp_all
  have a: "1 / (2::real) ^ L \<le> x"
    using hi assms(1) pL by (simp add: field_simps)
  have b': "x < 1 / (2::real) ^ (L - 1)"
    using lo assms(1) pL1 by (simp add: field_simps)
  from a b' show ?thesis
    unfolding e by (simp only: powi_neg_nat powi_neg_nat_succ [OF b(1)])
qed

lemma binaryExponent_bounds:
  assumes "0 < x"
  shows "2 powi (binaryExponent x) \<le> x \<and> x < 2 powi (binaryExponent x + 1)"
proof (cases "1 \<le> x")
  case True
  then show ?thesis by (rule binaryExponent_bounds_ge1)
next
  case False
  with assms show ?thesis by (intro binaryExponent_bounds_lt1) simp_all
qed

lemma binaryExponent_le:
  assumes "0 < x" and "x < 2 powi (E + 1)"
  shows "binaryExponent x \<le> E"
proof (rule ccontr)
  assume "\<not> binaryExponent x \<le> E"
  then have "E + 1 \<le> binaryExponent x" by simp
  then have "(2::real) powi (E + 1) \<le> 2 powi (binaryExponent x)"
    by (rule power_int_increasing) simp
  with binaryExponent_bounds [OF assms(1)] assms(2) show False by simp
qed

lemma toDouble_error:
  assumes "\<bar>x\<bar> < 2 powi (E + 1)" and "- 1022 \<le> E" and "E \<le> 1022"
  shows "\<exists>y. toDouble x = Finite y \<and> \<bar>y - x\<bar> \<le> 2 powi (E - 53)"
proof (cases "x = 0")
  case True
  then show ?thesis by (simp add: toDouble_def)
next
  case False
  define e where "e = max (binaryExponent \<bar>x\<bar>) (- 1022)"
  define q :: real where "q = 2 powi (e - 52)"
  define y where "y = of_int (roundTiesToEven (x / q)) * q"
  have q0: "0 < q" by (simp add: q_def)
  from False assms(1) have "binaryExponent \<bar>x\<bar> \<le> E"
    by (intro binaryExponent_le) simp_all
  with assms(2) have eE: "e \<le> E" by (simp add: e_def)
  then have "e - 52 \<le> E - 52" by simp
  then have qE: "q \<le> 2 powi (E - 52)"
    unfolding q_def by (rule power_int_increasing) simp
  have "\<bar>y - x\<bar> = \<bar>of_int (roundTiesToEven (x / q)) - x / q\<bar> * q"
  proof -
    have "y - x = (of_int (roundTiesToEven (x / q)) - x / q) * q"
      using q0 by (simp add: y_def field_simps)
    then show ?thesis using q0 by (simp add: abs_mult)
  qed
  also have "\<dots> \<le> (1 / 2) * q"
    using roundTiesToEven_error [of "x / q"] q0 by (intro mult_right_mono) simp_all
  also have "\<dots> \<le> (1 / 2) * 2 powi (E - 52)" using qE by simp
  also have "\<dots> = 2 powi (E - 53)"
  proof -
    have eq: "E - 52 = (E - 53) + 1" by simp
    have "(2::real) powi (E - 52) = 2 powi (E - 53) * 2"
      unfolding eq by (subst power_int_add) simp_all
    then show ?thesis by simp
  qed
  finally have err: "\<bar>y - x\<bar> \<le> 2 powi (E - 53)" .
  have small: "(2::real) powi (E - 53) \<le> 2 powi (E + 1)"
    by (rule power_int_increasing) simp_all
  have "\<bar>y\<bar> \<le> \<bar>x\<bar> + \<bar>y - x\<bar>" by simp
  also have "\<dots> < 2 powi (E + 1) + 2 powi (E + 1)"
    using assms(1) err small by simp
  also have "\<dots> = 2 powi (E + 2)"
  proof -
    have eq: "E + 2 = (E + 1) + 1" by simp
    have "(2::real) powi (E + 2) = 2 powi (E + 1) * 2"
      unfolding eq by (subst power_int_add) simp_all
    then show ?thesis by simp
  qed
  also have "\<dots> \<le> 2 powi 1024"
    using assms(3) by (intro power_int_increasing) simp_all
  finally have "\<not> 2 powi 1024 \<le> \<bar>y\<bar>" by simp
  then have "toDouble x = Finite y"
    using False by (simp add: toDouble_def Let_def e_def q_def y_def)
  with err show ?thesis by blast
qed

lemma toDouble_exact:
  assumes "x = of_int n * 2 powi k" and "\<bar>n\<bar> < 2 ^ 53" and "- 1074 \<le> k" and "k \<le> 970"
  shows "toDouble x = Finite x"
proof (cases "x = 0")
  case True
  then show ?thesis by (simp add: toDouble_def)
next
  case False
  define e where "e = max (binaryExponent \<bar>x\<bar>) (- 1022)"
  define q :: real where "q = 2 powi (e - 52)"
  have q0: "0 < q" by (simp add: q_def)
  have ax: "\<bar>x\<bar> = of_int \<bar>n\<bar> * 2 powi k"
    by (simp add: assms(1) abs_mult)
  have "real_of_int \<bar>n\<bar> < 2 ^ 53"
  proof -
    from assms(2) have "real_of_int \<bar>n\<bar> < real_of_int (2 ^ 53)" by (rule iffD2 [OF of_int_less_iff])
    then show ?thesis by simp
  qed
  then have "\<bar>x\<bar> < 2 ^ 53 * 2 powi k"
    unfolding ax by (intro mult_strict_right_mono) simp_all
  also have "\<dots> = 2 powi (52 + k + 1)"
  proof -
    have eq: "52 + k + 1 = 53 + k" by simp
    have "(2::real) powi (52 + k + 1) = 2 powi 53 * 2 powi k"
      unfolding eq by (rule power_int_add) simp
    then show ?thesis by simp
  qed
  finally have lt: "\<bar>x\<bar> < 2 powi (52 + k + 1)" .
  from False lt have "binaryExponent \<bar>x\<bar> \<le> 52 + k"
    by (intro binaryExponent_le) simp_all
  with assms(3) have "e - 52 \<le> k" by (simp add: e_def)
  then have d: "k = (e - 52) + int (nat (k - (e - 52)))" by simp
  define d where "d = nat (k - (e - 52))"
  note d = d [folded d_def]
  have "(2::real) powi k = 2 powi (e - 52) * 2 powi (int d)"
    unfolding d by (rule power_int_add) simp
  then have xq: "x / q = of_int (n * 2 ^ d)"
    using q0 by (simp add: assms(1) q_def)
  have y: "of_int (roundTiesToEven (x / q)) * q = x"
    unfolding xq roundTiesToEven_of_int using xq q0 by (simp add: field_simps)
  have "\<bar>x\<bar> < 2 powi 1024"
  proof -
    have "(2::real) powi (52 + k + 1) \<le> 2 powi 1024"
      using assms(4) by (intro power_int_increasing) simp_all
    with lt show ?thesis by simp
  qed
  then show ?thesis
    using False y by (simp add: toDouble_def Let_def e_def [symmetric] q_def [symmetric])
qed

lemma toDouble_zero [simp]: "toDouble 0 = Finite 0"
  by (simp add: toDouble_def)

lemma toDouble_of_int: "\<bar>n\<bar> < 2 ^ 53 \<Longrightarrow> toDouble (of_int n) = Finite (of_int n)"
  by (rule toDouble_exact [where n = n and k = 0]) simp_all

lemma toDouble_numeral [simp]:
  "(numeral w :: int) < 2 ^ 53 \<Longrightarrow> toDouble (numeral w) = Finite (numeral w)"
  using toDouble_of_int [of "numeral w"] by simp

lemma toDouble_half_int:
  "\<bar>n\<bar> < 2 ^ 53 \<Longrightarrow> toDouble (of_int n / 2) = Finite (of_int n / 2)"
  by (rule toDouble_exact [where n = n and k = "- 1"]) (simp_all add: power_int_minus_divide)

lemma toDouble_seven_bits:
  assumes "\<bar>x\<bar> < 128"
  shows "\<exists>y. toDouble x = Finite y \<and> \<bar>y - x\<bar> \<le> 1 / 2 ^ 47"
  using toDouble_error [of x 6] assms by (simp add: power_int_minus_divide)

lemmas toDouble_eval =
  toDouble_def binaryExponent_def compute_floorlog roundTiesToEven_def Let_def

lemma literal_0_3: "toDouble (3 / 10) = Finite (5404319552844595 / 2 ^ 54)"
  by (simp add: toDouble_eval)

section \<open>Properties of the pure functions\<close>

lemma baseScore_range: "10 \<le> baseScore ind \<and> baseScore ind \<le> 95"
  by (simp add: baseScore_def indicator_def)

lemma calculateSafetyScore_steps:
  "calculateSafetyScore ind =
     Math_max (Finite 0) (Math_min (Finite 100)
       (Math_round (Finite (of_int (baseScore ind)) - rugPullRisk ind * toDouble 0.3)))"
  by (simp add: calculateSafetyScore_def Let_def baseScore_def indicator_def)

lemma toDouble_not_NaN: "toDouble x \<noteq> NaN"
  by (simp add: toDouble_def Let_def)

lemma literal_value: "toDouble 0.3 = Finite (5404319552844595 / 2 ^ 54)"
  using literal_0_3 by simp

lemma product_not_NaN:
  assumes "r \<noteq> NaN"
  shows "Finite b - r * toDouble 0.3 \<noteq> NaN"
proof (cases r)
  case (Finite a)
  show ?thesis
  proof (cases "toDouble (a * (5404319552844595 / 2 ^ 54))")
    case (Finite y)
    with \<open>r = Finite a\<close> show ?thesis by (simp add: literal_value toDouble_not_NaN)
  next
    case PosInf
    with \<open>r = Finite a\<close> show ?thesis by (simp add: literal_value)
  next
    case NegInf
    with \<open>r = Finite a\<close> show ?thesis by (simp add: literal_value)
  next
    case NaN
    then show ?thesis by (simp add: toDouble_not_NaN)
  qed
next
  case PosInf
  then show ?thesis by (simp add: literal_value)
next
  case NegInf
  then show ?thesis by (simp add: literal_value)
next
  case NaN
  with assms show ?thesis by simp
qed

lemma clamp_Finite:
  "Math_max (Finite 0) (Math_min (Finite 100) (Finite v)) = Finite (max 0 (min 100 v))"
  by (simp add: Math_max_def Math_min_def max_def min_def)

lemma clamp_round_range:
  assumes "z \<noteq> NaN"
  shows "\<exists>n::int. 0 \<le> n \<and> n \<le> 100 \<and>
           Math_max (Finite 0) (Math_min (Finite 100) (Math_round z)) = Finite (of_int n)"
proof (cases z)
  case (Finite x)
  have "max 0 (min 100 (real_of_int \<lfloor>x + 1 / 2\<rfloor>)) = of_int (max 0 (min 100 \<lfloor>x + 1 / 2\<rfloor>))"
    by (simp add: max_def min_def)
  with Finite have "Math_max (Finite 0) (Math_min (Finite 100) (Math_round z))
      = Finite (of_int (max 0 (min 100 \<lfloor>x + 1 / 2\<rfloor>)))"
    by (simp only: Math_round_def number.case clamp_Finite)
  moreover have "0 \<le> max 0 (min 100 \<lfloor>x + 1 / 2\<rfloor>)" "max 0 (min 100 \<lfloor>x + 1 / 2\<rfloor>) \<le> 100"
    by simp_all
  ultimately show ?thesis by blast
next
  case PosInf
  then have "Math_max (Finite 0) (Math_min (Finite 100) (Math_round z)) = Finite (of_int 100)"
    by (simp add: Math_max_def Math_min_def Math_round_def)
  then show ?thesis by (intro exI [of _ 100]) simp
next
  case NegInf
  then have "Math_max (Finite 0) (Math_min (Finite 100) (Math_round z)) = Finite (of_int 0)"
    by (simp add: Math_max_def Math_min_def Math_round_def)
  then show ?thesis by (intro exI [of _ 0]) simp
next
  case NaN
  with assms show ?thesis by simp
qed

lemma toDouble_five_bits:
  assumes "\<bar>x\<bar> < 32"
  shows "\<exists>y. toDouble x = Finite y \<and> \<bar>y - x\<bar> \<le> 1 / 2 ^ 49"
  using toDouble_error [of x 4] assms by (simp add: power_int_minus_divide)

lemma product_bound:
  assumes "0 \<le> k" and "k \<le> 100"
  shows "\<exists>p. Finite (of_int k) * toDouble 0.3 = Finite p
             \<and> \<bar>p - 3 * of_int k / 10\<bar> \<le> 1 / 2 ^ 48"
proof -
  define x :: real where "x = of_int k * (5404319552844595 / 2 ^ 54)"
  have k: "0 \<le> real_of_int k" "real_of_int k \<le> 100" using assms by simp_all
  have d: "3 * of_int k / 10 - x = real_of_int k / (5 * 2 ^ 54)"
    by (simp add: x_def field_simps)
  have d0: "0 \<le> 3 * of_int k / 10 - x" unfolding d using k by simp
  have d1: "3 * of_int k / 10 - x \<le> 20 / 2 ^ 54"
    unfolding d using k by (simp add: field_simps)
  have "\<bar>x\<bar> < 32" using d0 d1 k by (simp add: abs_if)
  from toDouble_five_bits [OF this] obtain y
    where y: "toDouble x = Finite y" "\<bar>y - x\<bar> \<le> 1 / 2 ^ 49" by blast
  have "Finite (of_int k) * toDouble 0.3 = Finite y"
    using y(1) by (simp add: literal_value x_def)
  moreover have "\<bar>y - 3 * of_int k / 10\<bar> \<le> 1 / 2 ^ 48"
    using y(2) d0 d1 by (simp add: abs_if split: if_splits)
  ultimately show ?thesis by blast
qed

lemma difference_bound:
  assumes "\<bar>b - p\<bar> < 128"
  shows "\<exists>z. Finite b - Finite p = Finite z \<and> \<bar>z - (b - p)\<bar> \<le> 1 / 2 ^ 47"
  using toDouble_seven_bits [OF assms] by simp

lemma round_stable:
  fixes N :: int and z :: real
  assumes "N mod 10 \<noteq> 0" and "\<bar>z + 1 / 2 - of_int N / 10\<bar> \<le> 1 / 2 ^ 45"
  shows "\<lfloor>z + 1 / 2\<rfloor> = N div 10"
proof -
  define d where "d = N div 10"
  define m where "m = N mod 10"
  have N: "N = 10 * d + m" by (simp add: d_def m_def)
  have m: "1 \<le> m" "m \<le> 9"
    using assms(1) pos_mod_sign [of 10 N] pos_mod_bound [of 10 N] by (simp_all add: m_def)
  have r: "real_of_int N / 10 = of_int d + of_int m / 10"
    unfolding N by simp
  have m': "1 \<le> real_of_int m" "real_of_int m \<le> 9" using m by simp_all
  have e: "(1::real) / 2 ^ 45 < 1 / 10" by simp
  from assms(2) have "\<bar>z + 1 / 2 - (of_int d + of_int m / 10)\<bar> \<le> 1 / 2 ^ 45"
    unfolding r .
  with m' e have "of_int d \<le> z + 1 / 2" and "z + 1 / 2 < of_int d + 1"
    by (simp_all add: abs_if split: if_splits)
  then have "\<lfloor>z + 1 / 2\<rfloor> = d" by (rule floor_unique)
  then show ?thesis by (simp add: d_def)
qed

lemma product_half:
  assumes "k = 5 \<or> k = 15 \<or> k = 25 \<or> k = 35 \<or> k = 45 \<or> k = 55 \<or> k = 65 \<or> k = 75
           \<or> k = 85 \<or> k = 95"
  shows "Finite (of_int k) * toDouble 0.3 = Finite (3 * of_int k / 10)"
  using assms by (elim disjE) (simp_all add: literal_value toDouble_eval)

lemma spec_round:
  "round (real_of_int B - 0.3 * real_of_int k) = (10 * B - 3 * k + 5) div 10"
proof -
  have "real_of_int B - 0.3 * real_of_int k + 1 / 2
          = real_of_int (10 * B - 3 * k + 5) / real_of_int 10"
    by simp
  then have "round (real_of_int B - 0.3 * real_of_int k)
          = \<lfloor>real_of_int (10 * B - 3 * k + 5) / real_of_int 10\<rfloor>"
    by (simp only: round_def)
  then show ?thesis by (simp only: floor_divide_of_int_eq)
qed

lemma integer_risk_difference:
  fixes B k :: int
  assumes "10 \<le> B" and "B \<le> 95" and "0 \<le> k" and "k \<le> 100"
  shows "\<exists>z. Finite (of_int B) - Finite (of_int k) * toDouble 0.3 = Finite z
             \<and> \<lfloor>z + 1 / 2\<rfloor> = (10 * B - 3 * k + 5) div 10"
proof (cases "k mod 10 = 5")
  case True
  with assms(3,4) have ks: "k = 5 \<or> k = 15 \<or> k = 25 \<or> k = 35 \<or> k = 45 \<or> k = 55
      \<or> k = 65 \<or> k = 75 \<or> k = 85 \<or> k = 95"
    by presburger
  define n where "n = 2 * B - 3 * (k div 5)"
  from True have k5: "k = 5 * (k div 5)" by presburger
  have half: "real_of_int B - 3 * real_of_int k / 10 = real_of_int n / 2"
  proof -
    have "real_of_int k = real_of_int (5 * (k div 5))" by (rule arg_cong [OF k5])
    then have "real_of_int k = 5 * real_of_int (k div 5)" by simp
    then show ?thesis by (simp add: n_def)
  qed
  have "\<bar>n\<bar> < 2 ^ 53" using assms by (simp add: n_def)
  from toDouble_half_int [OF this]
  have d: "Finite (of_int B) - Finite (3 * of_int k / 10) = Finite (real_of_int n / 2)"
    by (simp only: minus_number.simps half)
  have "Finite (of_int B) - Finite (of_int k) * toDouble 0.3 = Finite (real_of_int n / 2)"
    unfolding product_half [OF ks] by (rule d)
  moreover have "\<lfloor>real_of_int n / 2 + 1 / 2\<rfloor> = (10 * B - 3 * k + 5) div 10"
  proof -
    have "real_of_int n / 2 + 1 / 2 = real_of_int B - 0.3 * real_of_int k + 1 / 2"
      using half by simp
    then have "\<lfloor>real_of_int n / 2 + 1 / 2\<rfloor> = round (real_of_int B - 0.3 * real_of_int k)"
      by (simp only: round_def)
    then show ?thesis by (simp only: spec_round)
  qed
  ultimately show ?thesis by blast
next
  case False
  from product_bound [OF assms(3,4)] obtain p
    where p: "Finite (of_int k) * toDouble 0.3 = Finite p"
      "\<bar>p - 3 * of_int k / 10\<bar> \<le> 1 / 2 ^ 48" by blast
  have B: "10 \<le> real_of_int B" "real_of_int B \<le> 95" using assms(1,2) by simp_all
  have k: "0 \<le> real_of_int k" "real_of_int k \<le> 100" using assms(3,4) by simp_all
  have "\<bar>real_of_int B - p\<bar> < 128"
    using p(2) B k by (simp add: abs_if split: if_splits)
  from difference_bound [OF this] obtain z
    where z: "Finite (of_int B) - Finite p = Finite z"
      "\<bar>z - (real_of_int B - p)\<bar> \<le> 1 / 2 ^ 47" by blast
  have N: "real_of_int (10 * B - 3 * k + 5) / 10
             = real_of_int B - 3 * real_of_int k / 10 + 1 / 2"
    by simp
  have "\<bar>z + 1 / 2 - real_of_int (10 * B - 3 * k + 5) / 10\<bar> \<le> 1 / 2 ^ 45"
    unfolding N using p(2) z(2) by (simp add: abs_if split: if_splits)
  moreover from False have "(10 * B - 3 * k + 5) mod 10 \<noteq> 0" by presburger
  ultimately have "\<lfloor>z + 1 / 2\<rfloor> = (10 * B - 3 * k + 5) div 10"
    by (intro round_stable)
  with p(1) z(1) show ?thesis by simp
qed

lemma integer_risk_exact:
  assumes "rugPullRisk ind = Finite (of_int k)" and "0 \<le> k" and "k \<le> 100"
  shows "calculateSafetyScore ind = Finite (specSafetyScore ind (of_int k))"
proof -
  from baseScore_range [of ind] have "10 \<le> baseScore ind" "baseScore ind \<le> 95" by simp_all
  from integer_risk_difference [OF this assms(2,3)] obtain z
    where z: "Finite (of_int (baseScore ind)) - Finite (of_int k) * toDouble 0.3 = Finite z"
      "\<lfloor>z + 1 / 2\<rfloor> = (10 * baseScore ind - 3 * k + 5) div 10" by blast
  have "calculateSafetyScore ind
          = Math_max (Finite 0) (Math_min (Finite 100) (Math_round (Finite z)))"
    by (simp only: calculateSafetyScore_steps assms(1) z(1))
  also have "\<dots> = Finite (max 0 (min 100 (of_int \<lfloor>z + 1 / 2\<rfloor>)))"
    by (simp only: Math_round_def number.case clamp_Finite)
  also have "\<dots> = Finite (specSafetyScore ind (of_int k))"
    by (simp only: z(2) specSafetyScore_def spec_round)
  finally show ?thesis .
qed

text \<open>
  C1, as the claim states it: the result is the exactly computed formula, rounded and
  clamped, and lies in the interval from 0 to 100 for every input. With the indicators
  of the placeholder and a rug-pull risk of \<open>5 + 2 ^ - 50\<close> (the double written
  5.000000000000001) the product with 0.3 rounds to \<open>1.5 + 2 ^ - 52\<close> and the
  difference from 85 rounds to 83.5, so the code returns 84, while the exact formula
  gives 83; with a rug-pull risk of NaN the code returns NaN.
\<close>

theorem calculateSafetyScore_exact_counterexample:
  "toDouble 5.000000000000001 = Finite (5 + 1 / 2 ^ 50)
   \<and> calculateSafetyScore (scenarioIndicators\<lparr> rugPullRisk := Finite (5 + 1 / 2 ^ 50) \<rparr>)
     = Finite 84
   \<and> specSafetyScore (scenarioIndicators\<lparr> rugPullRisk := Finite (5 + 1 / 2 ^ 50) \<rparr>)
        (5 + 1 / 2 ^ 50) = 83
   \<and> calculateSafetyScore (scenarioIndicators\<lparr> rugPullRisk := NaN \<rparr>) = NaN"
proof -
  have b: "baseScore (scenarioIndicators\<lparr> rugPullRisk := r \<rparr>) = 85" for r
    by (simp add: baseScore_def indicator_def scenarioIndicators_def)
  have 1: "calculateSafetyScore (scenarioIndicators\<lparr> rugPullRisk := Finite (5 + 1 / 2 ^ 50) \<rparr>)
     = Finite 84"
    by (simp add: calculateSafetyScore_steps b literal_value toDouble_eval
        Math_round_def Math_max_def Math_min_def)
  have 2: "specSafetyScore (scenarioIndicators\<lparr> rugPullRisk := Finite (5 + 1 / 2 ^ 50) \<rparr>)
        (5 + 1 / 2 ^ 50) = 83"
    unfolding specSafetyScore_def b by (simp add: round_def)
  have 3: "calculateSafetyScore (scenarioIndicators\<lparr> rugPullRisk := NaN \<rparr>) = NaN"
    unfolding calculateSafetyScore_steps
    by (simp add: literal_value Math_round_def Math_max_def Math_min_def)
  have 0: "toDouble 5.000000000000001 = Finite (5 + 1 / 2 ^ 50)"
    by (simp add: toDouble_eval)
  from 0 1 2 3 show ?thesis by (simp only: simp_thms)
qed

text \<open>
  C1, amended: for every input, the result is \<open>Math.round\<close> of the difference
  between the integer base score (50, plus 15 if verified, plus 10 if renounced, plus 10
  if the liquidity score is above 70, plus 10 if the holder distribution is above 60,
  minus 40 if a honeypot is detected) and the product of the rug-pull risk with 0.3,
  both in double arithmetic, clamped by \<open>Math.min\<close> and \<open>Math.max\<close>; when the
  rug-pull risk is not NaN the result is an integer between 0 and 100; when the
  rug-pull risk is an integer between 0 and 100 the result is exactly the formula of the
  specification computed in exact arithmetic.
\<close>

theorem calculateSafetyScore_doubles:
  "calculateSafetyScore ind
     = Math_max (Finite 0) (Math_min (Finite 100)
         (Math_round (Finite (of_int (baseScore ind)) - rugPullRisk ind * toDouble 0.3)))
   \<and> (rugPullRisk ind \<noteq> NaN \<longrightarrow>
        (\<exists>n::int. 0 \<le> n \<and> n \<le> 100 \<and> calculateSafetyScore ind = Finite (of_int n)))
   \<and> (\<forall>k::int. rugPullRisk ind = Finite (of_int k) \<and> 0 \<le> k \<and> k \<le> 100 \<longrightarrow>
        calculateSafetyScore ind = Finite (specSafetyScore ind (of_int k)))"
proof -
  have a: "rugPullRisk ind \<noteq> NaN \<longrightarrow>
        (\<exists>n::int. 0 \<le> n \<and> n \<le> 100 \<and> calculateSafetyScore ind = Finite (of_int n))"
    unfolding calculateSafetyScore_steps
    using clamp_round_range [OF product_not_NaN] by blast
  from a integer_risk_exact calculateSafetyScore_steps show ?thesis by blast
qed

theorem calculateSafetyScore_doubles_witness:
  "rugPullRisk scenarioIndicators = Finite 30
   \<and> calculateSafetyScore scenarioIndicators = Finite 76"
proof -
  have r: "rugPullRisk scenarioIndicators = Finite (of_int 30)"
    by (simp add: scenarioIndicators_def)
  have s: "specSafetyScore scenarioIndicators (of_int 30) = 76"
    by (simp add: specSafetyScore_def baseScore_def indicator_def scenarioIndicators_def round_def)
  from calculateSafetyScore_doubles [of scenarioIndicators]
  have "rugPullRisk scenarioIndicators = Finite (of_int 30) \<and> 0 \<le> (30::int)
          \<and> (30::int) \<le> 100
        \<longrightarrow> calculateSafetyScore scenarioIndicators
              = Finite (specSafetyScore scenarioIndicators (of_int 30))"
    by blast
  with r s show ?thesis by simp
qed

text \<open>The double nearest to five thirds: the code returns 85, the exact formula 84.\<close>

lemma calculateSafetyScore_five_thirds:
  "toDouble (5 / 3) = Finite (7505999378950827 / 2 ^ 52)
   \<and> calculateSafetyScore (scenarioIndicators\<lparr> rugPullRisk := toDouble (5 / 3) \<rparr>) = Finite 85
   \<and> specSafetyScore scenarioIndicators (7505999378950827 / 2 ^ 52) = 84"
proof -
  have t: "toDouble (5 / 3) = Finite (7505999378950827 / 2 ^ 52)"
    by (simp add: toDouble_eval)
  have b: "baseScore (scenarioIndicators\<lparr> rugPullRisk := r \<rparr>) = 85" for r
    by (simp add: baseScore_def indicator_def scenarioIndicators_def)
  have c: "calculateSafetyScore (scenarioIndicators\<lparr> rugPullRisk := toDouble (5 / 3) \<rparr>)
             = Finite 85"
    unfolding t
    by (simp add: calculateSafetyScore_steps b literal_value toDouble_eval
        Math_round_def Math_max_def Math_min_def)
  have e: "specSafetyScore scenarioIndicators (7505999378950827 / 2 ^ 52) = 84"
    by (simp add: specSafetyScore_def baseScore_def indicator_def scenarioIndicators_def
        round_def)
  from t c e show ?thesis by simp
qed

text \<open>The order of the numbers, as far as the thresholds need it.\<close>

lemma le_Finite_not_less: "x \<le> Finite a \<Longrightarrow> a \<le> b \<Longrightarrow> \<not> Finite b < x"
  by (cases x) simp_all

lemma thresholds_values [simp]:
  "minSafetyScore (green TRUST_LEVEL_THRESHOLDS) = Finite 80"
  "maxRugPullRisk (green TRUST_LEVEL_THRESHOLDS) = Finite 20"
  "minContractAge (green TRUST_LEVEL_THRESHOLDS) = Finite 30"
  "minTransactionVolume (green TRUST_LEVEL_THRESHOLDS) = Finite 100000"
  "minSafetyScore (yellow TRUST_LEVEL_THRESHOLDS) = Finite 50"
  "maxRugPullRisk (yellow TRUST_LEVEL_THRESHOLDS) = Finite 50"
  "minContractAge (yellow TRUST_LEVEL_THRESHOLDS) = Finite 7"
  "minTransactionVolume (yellow TRUST_LEVEL_THRESHOLDS) = Finite 10000"
  by (simp_all add: TRUST_LEVEL_THRESHOLDS_def)

text \<open>
  C2: a detected honeypot or an unverified contract is classified Red, whatever the
  metadata and the other indicators are.
\<close>

theorem calculateTrustLevel_veto:
  "honeypotDetected ind \<or> \<not> contractVerified ind \<Longrightarrow> calculateTrustLevel metadata ind = Red"
  by (simp add: calculateTrustLevel_def)

theorem calculateTrustLevel_veto_witness:
  "(honeypotDetected allFlagsIndicators \<or> \<not> contractVerified allFlagsIndicators)
   \<and> calculateTrustLevel (boundaryMetadata ''0xabc'' (Finite 100) (Finite 365) (Finite 1000000)) allFlagsIndicators = Red"
  using calculateTrustLevel_veto [of allFlagsIndicators "boundaryMetadata ''0xabc'' (Finite 100) (Finite 365) (Finite 1000000)"]
  by (simp add: allFlagsIndicators_def)

text \<open>
  C3: the thresholds are inclusive. For a verified contract that is no honeypot, the
  values exactly at the green thresholds (score 80, risk 20, age 30, volume 100000) give
  Green and those exactly at the yellow thresholds (score 50, risk 50, age 7, volume
  10000) give Yellow; in general the tier is Green exactly when all four green
  comparisons hold with \<open>\<ge>\<close> for the minimums and \<open>\<le>\<close> for the maximum, and Yellow
  exactly when they do not all hold and the four yellow comparisons do.
\<close>

theorem calculateTrustLevel_boundary_inclusive:
  assumes "contractVerified ind" and "\<not> honeypotDetected ind"
  shows "(safetyScore md = Finite 80 \<and> rugPullRisk ind = Finite 20
            \<and> contractAge md = Finite 30 \<and> transactionVolume md = Finite 100000
          \<longrightarrow> calculateTrustLevel md ind = Green)
       \<and> (safetyScore md = Finite 50 \<and> rugPullRisk ind = Finite 50
            \<and> contractAge md = Finite 7 \<and> transactionVolume md = Finite 10000
          \<longrightarrow> calculateTrustLevel md ind = Yellow)
       \<and> (calculateTrustLevel md ind = Green \<longleftrightarrow>
            safetyScore md \<ge> Finite 80 \<and> rugPullRisk ind \<le> Finite 20
            \<and> contractAge md \<ge> Finite 30 \<and> transactionVolume md \<ge> Finite 100000)
       \<and> (calculateTrustLevel md ind = Yellow \<longleftrightarrow>
            \<not> (safetyScore md \<ge> Finite 80 \<and> rugPullRisk ind \<le> Finite 20
               \<and> contractAge md \<ge> Finite 30 \<and> transactionVolume md \<ge> Finite 100000)
            \<and> safetyScore md \<ge> Finite 50 \<and> rugPullRisk ind \<le> Finite 50
            \<and> contractAge md \<ge> Finite 7 \<and> transactionVolume md \<ge> Finite 10000)"
  using assms le_Finite_not_less [of "rugPullRisk ind" 20 50]
    le_Finite_not_less [of "rugPullRisk ind" 50 50]
  by (auto simp add: calculateTrustLevel_def)

theorem calculateTrustLevel_boundary_witness:
  "calculateTrustLevel (boundaryMetadata ''0xabc'' (Finite 80) (Finite 30) (Finite 100000))
     (scenarioIndicators\<lparr> rugPullRisk := Finite 20 \<rparr>) = Green
   \<and> calculateTrustLevel (boundaryMetadata ''0xabc'' (Finite 50) (Finite 7) (Finite 10000))
     (scenarioIndicators\<lparr> rugPullRisk := Finite 50 \<rparr>) = Yellow"
  using calculateTrustLevel_boundary_inclusive
          [of "scenarioIndicators\<lparr> rugPullRisk := Finite 20 \<rparr>"
              "boundaryMetadata ''0xabc'' (Finite 80) (Finite 30) (Finite 100000)"]
        calculateTrustLevel_boundary_inclusive
          [of "scenarioIndicators\<lparr> rugPullRisk := Finite 50 \<rparr>"
              "boundaryMetadata ''0xabc'' (Finite 50) (Finite 7) (Finite 10000)"]
  by (simp add: scenarioIndicators_def boundaryMetadata_def)

text \<open>
  C8, as the claim states its bound: at most 6 distinct tags. It fails for a Red
  contract that is an unverified honeypot with critical rug-pull risk, low liquidity,
  concentrated holders and ownership kept: all seven groups of tags are present.
\<close>

theorem generateMiterSignals_six_counterexample:
  "\<not> card (set (generateMiterSignals allFlagsIndicators Red)) \<le> 6"
  by (simp add: generateMiterSignals_def allFlagsIndicators_def)

text \<open>
  C8, amended: for every indicators and tier the result is the sequence of the tags in
  the fixed order HIGH_RISK (tier Red), HONEYPOT_DETECTED, UNVERIFIED_CONTRACT,
  CRITICAL_RUG_RISK (risk above 70) or else ELEVATED_RUG_RISK (risk above 40),
  LOW_LIQUIDITY (below 30), CONCENTRATED_HOLDERS (below 30), OWNERSHIP_NOT_RENOUNCED,
  each present exactly when its condition holds; no tag occurs twice, and there are at
  most 7 of them.
\<close>

theorem generateMiterSignals_ordered:
  "generateMiterSignals ind tier = specSignals ind tier
   \<and> distinct (generateMiterSignals ind tier)
   \<and> length (generateMiterSignals ind tier) \<le> 7
   \<and> \<not> (''CRITICAL_RUG_RISK'' \<in> set (generateMiterSignals ind tier)
        \<and> ''ELEVATED_RUG_RISK'' \<in> set (generateMiterSignals ind tier))"
proof -
  have eq: "generateMiterSignals ind tier = specSignals ind tier"
    by (simp add: generateMiterSignals_def specSignals_def tagWhen_def Let_def)
  have d: "distinct (specSignals ind tier)"
    by (simp add: specSignals_def tagWhen_def)
  have l: "length (specSignals ind tier) \<le> 7"
    by (simp add: specSignals_def tagWhen_def)
  have x: "\<not> (''CRITICAL_RUG_RISK'' \<in> set (specSignals ind tier)
        \<and> ''ELEVATED_RUG_RISK'' \<in> set (specSignals ind tier))"
    by (simp add: specSignals_def tagWhen_def)
  from eq d l x show ?thesis by simp
qed

theorem generateMiterSignals_ordered_witness:
  "generateMiterSignals scenarioIndicators Red = [''HIGH_RISK'', ''OWNERSHIP_NOT_RENOUNCED'']
   \<and> generateMiterSignals allFlagsIndicators Red =
       [''HIGH_RISK'', ''HONEYPOT_DETECTED'', ''UNVERIFIED_CONTRACT'', ''CRITICAL_RUG_RISK'',
        ''LOW_LIQUIDITY'', ''CONCENTRATED_HOLDERS'', ''OWNERSHIP_NOT_RENOUNCED'']"
proof -
  have a: "specSignals scenarioIndicators Red = [''HIGH_RISK'', ''OWNERSHIP_NOT_RENOUNCED'']"
    by (simp add: specSignals_def tagWhen_def scenarioIndicators_def)
  have b: "specSignals allFlagsIndicators Red =
       [''HIGH_RISK'', ''HONEYPOT_DETECTED'', ''UNVERIFIED_CONTRACT'', ''CRITICAL_RUG_RISK'',
        ''LOW_LIQUIDITY'', ''CONCENTRATED_HOLDERS'', ''OWNERSHIP_NOT_RENOUNCED'']"
    by (simp add: specSignals_def tagWhen_def allFlagsIndicators_def)
  from a b generateMiterSignals_ordered [of scenarioIndicators Red]
       generateMiterSignals_ordered [of allFlagsIndicators Red]
  show ?thesis by simp
qed

section \<open>Properties of the service\<close>

text \<open>What one call of \<open>checkContract\<close> returns and leaves in the cache.\<close>

lemma calculateTrustLevel_age_zero:
  "contractAge md = Finite 0 \<Longrightarrow> calculateTrustLevel md ind = Red"
  by (simp add: calculateTrustLevel_def)

lemma fresh_fst:
  "fst (checkContract_fresh x stamp a s) = fst (checkContract_fresh x stamp a s')"
  by (simp add: checkContract_fresh_def Let_def split: sum.splits)

lemma fresh_Inl:
  "checkContract_fresh x stamp a s = (Inl e, s') \<Longrightarrow> s' = s \<and> x = Inl e"
  by (auto simp add: checkContract_fresh_def Let_def split: sum.splits)

lemma fresh_Inr:
  assumes "checkContract_fresh x stamp a s = (Inr r, s')"
  shows "s' = s\<lparr> checkCache := (checkCache s)(a \<mapsto> r) \<rparr>"
    and "timestamp r = stamp" and "x = Inr (indicators r)"
    and "riskLevel r = Red" and "isUnsafe r"
  using assms
  by (auto simp add: checkContract_fresh_def Let_def calculateTrustLevel_age_zero
      split: sum.splits)

lemma cached_Some:
  "checkContract_cached now a s = Some c \<longleftrightarrow>
     checkCache s a = Some c \<and> isCacheValid now (timestamp c)"
  by (auto simp add: checkContract_cached_def split: option.splits)

lemma check_hit:
  "checkCache s a = Some c \<Longrightarrow> isCacheValid now (timestamp c) \<Longrightarrow>
   checkContract analyze now stamp a s = (Inr c, s)"
  by (simp add: checkContract_def checkContract_cached_def)

lemma check_stale:
  "checkCache s a = Some c \<Longrightarrow> \<not> isCacheValid now (timestamp c) \<Longrightarrow>
   checkContract analyze now stamp a s = checkContract_fresh (analyze a) stamp a s"
  by (simp add: checkContract_def checkContract_cached_def)

lemma check_miss:
  "checkCache s a = None \<Longrightarrow>
   checkContract analyze now stamp a s = checkContract_fresh (analyze a) stamp a s"
  by (simp add: checkContract_def checkContract_cached_def)

lemma check_Inr_cache:
  assumes "checkContract analyze now stamp a s = (Inr r, s')"
  shows "checkCache s' a = Some r"
proof (cases "checkContract_cached now a s")
  case None
  with assms have "checkContract_fresh (analyze a) stamp a s = (Inr r, s')"
    by (simp add: checkContract_def)
  from fresh_Inr(1) [OF this] show ?thesis by simp
next
  case (Some c)
  with assms have "c = r" and "s' = s" by (simp_all add: checkContract_def)
  with Some show ?thesis by (simp add: cached_Some)
qed

lemma isCacheValid_iff: "isCacheValid now ts \<longleftrightarrow> now - ts < 300000"
  by (simp add: isCacheValid_def SAFETY_CHECK_INTERVALS_def Let_def)

lemma first_check:
  "checkContract analyzeContract now stamp a newRugPullChecker =
     (Inr (scenarioResult a stamp), scenarioChecker a stamp)"
  by (simp add: checkContract_def checkContract_cached_def checkContract_fresh_def
      newRugPullChecker_def analyzeContract_def calculateRugPullRisk_def Let_def
      calculateTrustLevel_def generateMiterSignals_def scenarioResult_def
      scenarioChecker_def scenarioIndicators_def)

text \<open>
  C4: the freshness test is the strict comparison \<open>now - timestamp < ttl\<close> with the
  TTL of 300000 ms; a result whose age is exactly the TTL is not valid. For a cached
  result, \<open>checkContract\<close> serves it unchanged, the state untouched, when the
  comparison holds, and otherwise does what it does without a cache entry: it calls the
  provider and builds a fresh result.
\<close>

theorem cache_freshness_strict:
  "(isCacheValid now ts \<longleftrightarrow> now - ts < rugPullCheck SAFETY_CHECK_INTERVALS)
   \<and> rugPullCheck SAFETY_CHECK_INTERVALS = 300000
   \<and> \<not> isCacheValid (ts + rugPullCheck SAFETY_CHECK_INTERVALS) ts
   \<and> (checkCache s a = Some c \<longrightarrow>
        (if now - timestamp c < rugPullCheck SAFETY_CHECK_INTERVALS
         then checkContract analyze now stamp a s = (Inr c, s)
         else checkContract analyze now stamp a s
                = checkContract_fresh (analyze a) stamp a s))"
  by (simp add: isCacheValid_def Let_def SAFETY_CHECK_INTERVALS_def checkContract_def
      checkContract_cached_def)

theorem cache_freshness_strict_witness:
  "checkContract analyzeContract 300999 300999 ''0xabc'' (scenarioChecker ''0xabc'' 1000)
     = (Inr (scenarioResult ''0xabc'' 1000), scenarioChecker ''0xabc'' 1000)
   \<and> checkContract analyzeContract 301000 301000 ''0xabc'' (scenarioChecker ''0xabc'' 1000)
     = (Inr (scenarioResult ''0xabc'' 301000), scenarioChecker ''0xabc'' 301000)"
proof -
  have c: "checkCache (scenarioChecker ''0xabc'' 1000) ''0xabc''
             = Some (scenarioResult ''0xabc'' 1000)"
    by (simp add: scenarioChecker_def)
  have f: "checkContract_fresh (analyzeContract ''0xabc'') 301000 ''0xabc''
             (scenarioChecker ''0xabc'' 1000)
           = (Inr (scenarioResult ''0xabc'' 301000), scenarioChecker ''0xabc'' 301000)"
    by (simp add: checkContract_fresh_def
      newRugPullChecker_def analyzeContract_def calculateRugPullRisk_def Let_def
      calculateTrustLevel_def generateMiterSignals_def scenarioResult_def
      scenarioChecker_def scenarioIndicators_def)
  from c f
    cache_freshness_strict [of 300999 1000 "scenarioChecker ''0xabc'' 1000" "''0xabc''"
               "scenarioResult ''0xabc'' 1000" analyzeContract 300999]
    cache_freshness_strict [of 301000 1000 "scenarioChecker ''0xabc'' 1000" "''0xabc''"
               "scenarioResult ''0xabc'' 1000" analyzeContract 301000]
  show ?thesis by (simp add: scenarioResult_def)
qed

text \<open>
  C5: when a call of \<open>checkContract\<close> has returned a result and that result is still
  fresh at the next call for the same address, the next call returns the same result,
  timestamp included, and leaves the state as it is (no cache write), whatever the
  provider would answer and whatever the clock shows for a new result (no
  recomputation).
\<close>

theorem checkContract_idempotent_within_ttl:
  assumes "checkContract analyze now stamp a s = (Inr r, s')"
    and "isCacheValid now' (timestamp r)"
  shows "checkContract analyze' now' stamp' a s' = (Inr r, s')"
  using check_Inr_cache [OF assms(1)] assms(2) by (rule check_hit)

theorem checkContract_idempotent_within_ttl_witness:
  "checkContract (\<lambda>a. Inl (Rejected ''provider down'')) 200000 200000 ''0xabc''
      (snd (checkContract analyzeContract 1000 1000 ''0xabc'' newRugPullChecker))
   = checkContract analyzeContract 1000 1000 ''0xabc'' newRugPullChecker"
proof -
  have v: "isCacheValid 200000 (timestamp (scenarioResult ''0xabc'' 1000))"
    by (simp add: isCacheValid_iff scenarioResult_def)
  from checkContract_idempotent_within_ttl [OF first_check v]
  show ?thesis by (simp add: first_check)
qed

lemma start_first:
  "startMonitoring analyzeContract now stamp a newRugPullChecker =
     (Inr (), (scenarioChecker a stamp)\<lparr> monitoredContracts := [a] \<rparr>)"
proof -
  have "checkContract analyzeContract now stamp a
          (newRugPullChecker\<lparr> monitoredContracts := [a] \<rparr>) =
        (Inr (scenarioResult a stamp), (scenarioChecker a stamp)\<lparr> monitoredContracts := [a] \<rparr>)"
    by (simp add: checkContract_def checkContract_cached_def checkContract_fresh_def
      newRugPullChecker_def analyzeContract_def calculateRugPullRisk_def Let_def
      calculateTrustLevel_def generateMiterSignals_def scenarioResult_def
      scenarioChecker_def scenarioIndicators_def)
  then show ?thesis
    by (simp add: startMonitoring_def Let_def newRugPullChecker_def)
qed

text \<open>
  C6: after \<open>stopMonitoring\<close> the address is not monitored and has no cache entry, so
  the evaluation that follows is the fresh one: its result carries the new clock value
  and the indicators the provider has just returned, and it differs from any cached
  result of before the stop that has another timestamp.
\<close>

theorem stopMonitoring_evicts:
  "a \<notin> set (monitoredContracts (stopMonitoring a s))
   \<and> checkCache (stopMonitoring a s) a = None
   \<and> checkContract analyze now stamp a (stopMonitoring a s)
       = checkContract_fresh (analyze a) stamp a (stopMonitoring a s)
   \<and> (\<forall>r. fst (checkContract analyze now stamp a (stopMonitoring a s)) = Inr r \<longrightarrow>
          timestamp r = stamp \<and> analyze a = Inr (indicators r)
          \<and> (\<forall>c. checkCache s a = Some c \<and> timestamp c \<noteq> stamp \<longrightarrow> r \<noteq> c))"
proof -
  have n: "checkCache (stopMonitoring a s) a = None"
    by (simp add: stopMonitoring_def Let_def)
  have m: "a \<notin> set (monitoredContracts (stopMonitoring a s))"
    by (simp add: stopMonitoring_def Let_def)
  have e: "checkContract analyze now stamp a (stopMonitoring a s)
       = checkContract_fresh (analyze a) stamp a (stopMonitoring a s)"
    using n by (rule check_miss)
  have "timestamp r = stamp \<and> analyze a = Inr (indicators r)
          \<and> (\<forall>c. checkCache s a = Some c \<and> timestamp c \<noteq> stamp \<longrightarrow> r \<noteq> c)"
    if "fst (checkContract analyze now stamp a (stopMonitoring a s)) = Inr r" for r
  proof -
    from that e obtain s' where
      "checkContract_fresh (analyze a) stamp a (stopMonitoring a s) = (Inr r, s')"
      by (cases "checkContract_fresh (analyze a) stamp a (stopMonitoring a s)") simp
    from fresh_Inr(2,3) [OF this] show ?thesis by auto
  qed
  with n m e show ?thesis by blast
qed

theorem stopMonitoring_evicts_witness:
  "checkCache (snd (startMonitoring analyzeContract 1000 1000 ''0xabc'' newRugPullChecker)) ''0xabc''
     = Some (scenarioResult ''0xabc'' 1000)
   \<and> isCacheValid 2000 (timestamp (scenarioResult ''0xabc'' 1000))
   \<and> fst (checkContract analyzeContract 2000 2000 ''0xabc''
        (stopMonitoring ''0xabc''
           (snd (startMonitoring analyzeContract 1000 1000 ''0xabc'' newRugPullChecker))))
     = Inr (scenarioResult ''0xabc'' 2000)
   \<and> scenarioResult ''0xabc'' 2000 \<noteq> scenarioResult ''0xabc'' 1000"
proof -
  let ?s = "snd (startMonitoring analyzeContract 1000 1000 ''0xabc'' newRugPullChecker)"
  have f: "fst (checkContract_fresh (analyzeContract ''0xabc'') 2000 ''0xabc''
             (stopMonitoring ''0xabc'' ?s)) = Inr (scenarioResult ''0xabc'' 2000)"
    by (simp add: checkContract_fresh_def analyzeContract_def calculateRugPullRisk_def Let_def
      calculateTrustLevel_def generateMiterSignals_def scenarioResult_def scenarioIndicators_def)
  from f stopMonitoring_evicts [of "''0xabc''" ?s analyzeContract 2000 2000]
  show ?thesis
    by (simp add: start_first scenarioChecker_def scenarioResult_def isCacheValid_iff)
qed

text \<open>
  The fan-out: its outcomes are those of the single calls on the state of the moment of
  the fan-out, and its cache writes are those of the fulfilled fresh calls.
\<close>

lemma settle_fst:
  "fst (settleChecks analyze stamp (map (\<lambda>a. (a, f a)) addrs) st) =
     map (\<lambda>a. case f a of Some c \<Rightarrow> Inr c
                | None \<Rightarrow> fst (checkContract_fresh (analyze a) stamp a s0)) addrs"
proof (induction addrs arbitrary: st)
  case Nil
  show ?case by simp
next
  case (Cons a addrs)
  show ?case
    using Cons.IH fresh_fst [of "analyze a" stamp a st s0]
    by (simp add: split_def Let_def split: option.splits)
qed

lemma fresh_cache:
  "checkCache (snd (checkContract_fresh x stamp a st)) b =
     (if b = a then (case fst (checkContract_fresh x stamp a s0) of
                       Inr r \<Rightarrow> Some r | Inl e \<Rightarrow> checkCache st b)
      else checkCache st b)"
  by (simp add: checkContract_fresh_def Let_def split: sum.splits)

lemma fresh_monitored:
  "monitoredContracts (snd (checkContract_fresh x stamp a st)) = monitoredContracts st"
  by (simp add: checkContract_fresh_def Let_def split: sum.splits)

lemma settle_cache:
  "checkCache (snd (settleChecks analyze stamp (map (\<lambda>a. (a, f a)) addrs) st)) b =
     (if b \<in> set addrs \<and> f b = None
      then (case fst (checkContract_fresh (analyze b) stamp b s0) of
              Inr r \<Rightarrow> Some r | Inl e \<Rightarrow> checkCache st b)
      else checkCache st b)"
proof (induction addrs arbitrary: st)
  case Nil
  show ?case by simp
next
  case (Cons a addrs)
  show ?case
  proof (cases "f a")
    case (Some c)
    then show ?thesis using Cons.IH [of st]
      by (auto simp add: split_def Let_def)
  next
    case None
    then show ?thesis
      using Cons.IH [of "snd (checkContract_fresh (analyze a) stamp a st)"]
        fresh_cache [of "analyze a" stamp a st b s0]
      by (auto simp add: split_def Let_def split: sum.splits)
  qed
qed

lemma settle_monitored:
  "monitoredContracts (snd (settleChecks analyze stamp jobs st)) = monitoredContracts st"
proof (induction jobs arbitrary: st)
  case Nil
  show ?case by simp
next
  case (Cons j jobs)
  obtain a started where j: "j = (a, started)" by (cases j)
  show ?case
  proof (cases started)
    case None
    with j Cons.IH [of "snd (checkContract_fresh (analyze a) stamp a st)"]
    show ?thesis by (simp add: split_def Let_def fresh_monitored)
  next
    case (Some c)
    with j Cons.IH [of st] show ?thesis by (simp add: split_def Let_def)
  qed
qed

lemma check_fst:
  "fst (checkContract analyze now stamp a s) =
     (case checkContract_cached now a s of Some c \<Rightarrow> Inr c
      | None \<Rightarrow> fst (checkContract_fresh (analyze a) stamp a s))"
  by (simp add: checkContract_def split: option.splits)

lemma allSettled_fst:
  "fst (allSettledChecks analyze now stamp addrs s) =
     map (\<lambda>a. fst (checkContract analyze now stamp a s)) addrs"
  unfolding allSettledChecks_def check_fst by (rule settle_fst)

lemma allSettled_cache:
  "checkCache (snd (allSettledChecks analyze now stamp addrs s)) b =
     (if b \<in> set addrs \<and> checkContract_cached now b s = None
      then (case fst (checkContract_fresh (analyze b) stamp b s) of
              Inr r \<Rightarrow> Some r | Inl e \<Rightarrow> checkCache s b)
      else checkCache s b)"
  unfolding allSettledChecks_def by (rule settle_cache)

lemma allSettled_cache_fulfilled:
  assumes "a \<in> set addrs" and "fst (checkContract analyze now stamp a s) = Inr r"
  shows "checkCache (snd (allSettledChecks analyze now stamp addrs s)) a = Some r"
proof (cases "checkContract_cached now a s")
  case None
  with assms show ?thesis by (simp add: allSettled_cache check_fst)
next
  case (Some c)
  with assms(2) have "c = r" by (simp add: check_fst)
  moreover from Some have "checkCache s a = Some c" by (simp add: cached_Some)
  ultimately show ?thesis using Some by (simp add: allSettled_cache)
qed

lemma foldl_setRanking:
  "foldl setRanking m (zip addrs (map out addrs)) b =
     (if b \<in> set addrs then (case out b of Inr v \<Rightarrow> Some (riskLevel v) | Inl e \<Rightarrow> m b)
      else m b)"
proof (induction addrs arbitrary: m)
  case Nil
  show ?case by simp
next
  case (Cons a addrs)
  show ?case using Cons.IH [of "setRanking m (a, out a)"]
    by (auto simp add: setRanking_def split: sum.splits)
qed

lemma getTrustRankings_fst:
  "fst (getTrustRankings analyze now stamp addrs s) =
     Inr (\<lambda>b. if b \<in> set addrs
               then (case fst (checkContract analyze now stamp b s) of
                       Inr v \<Rightarrow> Some (riskLevel v) | Inl e \<Rightarrow> None)
               else None)"
proof -
  have "foldl setRanking Map.empty
          (zip addrs (fst (allSettledChecks analyze now stamp addrs s))) =
        (\<lambda>b. if b \<in> set addrs
               then (case fst (checkContract analyze now stamp b s) of
                       Inr v \<Rightarrow> Some (riskLevel v) | Inl e \<Rightarrow> None)
               else None)"
    unfolding allSettled_fst by (rule ext) (simp add: foldl_setRanking)
  then show ?thesis by (simp add: getTrustRankings_def split_def Let_def)
qed

lemma getTrustRankings_snd:
  "snd (getTrustRankings analyze now stamp addrs s) =
     snd (allSettledChecks analyze now stamp addrs s)"
  by (simp add: getTrustRankings_def split_def Let_def)

lemma syncLiveMetadata_snd:
  "snd (syncLiveMetadata analyze now stamp s) =
     snd (allSettledChecks analyze now stamp (monitoredContracts s) s)"
  by (simp add: syncLiveMetadata_def split_def)

text \<open>
  C7: \<open>getTrustRankings\<close> is fulfilled with a map whose keys are exactly the addresses
  whose evaluation is fulfilled, each with the tier of its result; the fan-out keeps one
  outcome per address, failures included; \<open>syncLiveMetadata\<close> is fulfilled whatever
  the provider does, and afterwards every monitored address whose evaluation is
  fulfilled has its result in the cache.
\<close>

theorem batch_failures_isolated:
  "(\<exists>rankings. fst (getTrustRankings analyze now stamp addrs s) = Inr rankings
      \<and> dom rankings
          = set (filter (\<lambda>a. fulfilled (fst (checkContract analyze now stamp a s))) addrs)
      \<and> (\<forall>a\<in>set addrs. \<forall>r. fst (checkContract analyze now stamp a s) = Inr r
            \<longrightarrow> rankings a = Some (riskLevel r)))
   \<and> fst (allSettledChecks analyze now stamp addrs s)
       = map (\<lambda>a. fst (checkContract analyze now stamp a s)) addrs
   \<and> fst (syncLiveMetadata analyze now stamp s) = Inr ()
   \<and> (\<forall>a\<in>set (monitoredContracts s). \<forall>r.
         fst (checkContract analyze now stamp a s) = Inr r
           \<longrightarrow> checkCache (snd (syncLiveMetadata analyze now stamp s)) a = Some r)"
proof -
  let ?rk = "\<lambda>b. if b \<in> set addrs
               then (case fst (checkContract analyze now stamp b s) of
                       Inr v \<Rightarrow> Some (riskLevel v) | Inl e \<Rightarrow> None)
               else None"
  have d: "dom ?rk
          = set (filter (\<lambda>a. fulfilled (fst (checkContract analyze now stamp a s))) addrs)"
    by (auto simp add: dom_def fulfilled_def split: sum.splits if_splits)
  have v: "\<forall>a\<in>set addrs. \<forall>r. fst (checkContract analyze now stamp a s) = Inr r
            \<longrightarrow> ?rk a = Some (riskLevel r)"
    by simp
  have r: "\<exists>rankings. fst (getTrustRankings analyze now stamp addrs s) = Inr rankings
      \<and> dom rankings
          = set (filter (\<lambda>a. fulfilled (fst (checkContract analyze now stamp a s))) addrs)
      \<and> (\<forall>a\<in>set addrs. \<forall>r. fst (checkContract analyze now stamp a s) = Inr r
            \<longrightarrow> rankings a = Some (riskLevel r))"
    using getTrustRankings_fst [of analyze now stamp addrs s] d v by blast
  have t: "fst (syncLiveMetadata analyze now stamp s) = Inr ()"
    by (simp add: syncLiveMetadata_def split_def)
  have c: "\<forall>a\<in>set (monitoredContracts s). \<forall>r.
         fst (checkContract analyze now stamp a s) = Inr r
           \<longrightarrow> checkCache (snd (syncLiveMetadata analyze now stamp s)) a = Some r"
    by (simp add: syncLiveMetadata_snd allSettled_cache_fulfilled)
  from r t c allSettled_fst [of analyze now stamp addrs s] show ?thesis by blast
qed

theorem batch_failures_isolated_witness:
  "(\<exists>rankings.
      fst (getTrustRankings flakyProvider 1000 1000 [''0xa'', ''0xbad'', ''0xc''] newRugPullChecker)
        = Inr rankings
      \<and> dom rankings = {''0xa'', ''0xc''}
      \<and> rankings ''0xa'' = Some Red \<and> rankings ''0xc'' = Some Red)
   \<and> fst (syncLiveMetadata flakyProvider 1000 1000
        (newRugPullChecker\<lparr> monitoredContracts := [''0xa'', ''0xbad'', ''0xc''] \<rparr>)) = Inr ()
   \<and> checkCache (snd (syncLiveMetadata flakyProvider 1000 1000
        (newRugPullChecker\<lparr> monitoredContracts := [''0xa'', ''0xbad'', ''0xc''] \<rparr>))) ''0xc''
       = Some (scenarioResult ''0xc'' 1000)"
proof -
  have ok: "fst (checkContract flakyProvider 1000 1000 a s) = Inr (scenarioResult a 1000)"
    if "a \<noteq> ''0xbad''" and "checkCache s = Map.empty" for a s
    using that
    by (simp add: checkContract_def checkContract_cached_def checkContract_fresh_def
      flakyProvider_def analyzeContract_def calculateRugPullRisk_def Let_def
      calculateTrustLevel_def generateMiterSignals_def scenarioResult_def scenarioIndicators_def)
  have bad: "fst (checkContract flakyProvider 1000 1000 ''0xbad'' s)
               = Inl (Rejected ''provider unavailable'')"
    if "checkCache s = Map.empty" for s
    using that
    by (simp add: checkContract_def checkContract_cached_def checkContract_fresh_def
      flakyProvider_def)
  have e: "checkCache newRugPullChecker = Map.empty"
    "checkCache (newRugPullChecker\<lparr> monitoredContracts := [''0xa'', ''0xbad'', ''0xc''] \<rparr>)
       = Map.empty"
    by (simp_all add: newRugPullChecker_def)
  from batch_failures_isolated [of flakyProvider 1000 1000 "[''0xa'', ''0xbad'', ''0xc'']" newRugPullChecker]
       batch_failures_isolated [of flakyProvider 1000 1000 "[]"
             "newRugPullChecker\<lparr> monitoredContracts := [''0xa'', ''0xbad'', ''0xc''] \<rparr>"]
  show ?thesis
    by (auto simp add: ok bad e fulfilled_def scenarioResult_def)
qed

text \<open>Every public method keeps the cache free of results that are not Red.\<close>

lemma fresh_allRed:
  assumes "cacheAllRed s"
  shows "cacheAllRed (snd (checkContract_fresh x stamp a s))"
proof (cases "checkContract_fresh x stamp a s")
  case (Pair res s')
  show ?thesis
  proof (cases res)
    case (Inl e)
    with Pair fresh_Inl [of x stamp a s e s'] assms show ?thesis by simp
  next
    case (Inr r)
    with Pair have eq: "checkContract_fresh x stamp a s = (Inr r, s')" by simp
    from fresh_Inr(1,4,5) [OF eq] assms Pair show ?thesis
      by (simp add: cacheAllRed_def)
  qed
qed

lemma check_allRed:
  "cacheAllRed s \<Longrightarrow> cacheAllRed (snd (checkContract analyze now stamp a s))"
  by (simp add: checkContract_def fresh_allRed split: option.splits)

lemma settle_allRed:
  "cacheAllRed st \<Longrightarrow> cacheAllRed (snd (settleChecks analyze stamp jobs st))"
proof (induction jobs arbitrary: st)
  case Nil
  then show ?case by simp
next
  case (Cons j jobs)
  obtain a started where j: "j = (a, started)" by (cases j)
  show ?case
  proof (cases started)
    case None
    with j Cons.IH [OF fresh_allRed [OF Cons.prems, of "analyze a" stamp a]]
    show ?thesis by (simp add: split_def Let_def)
  next
    case (Some c)
    with j Cons.IH [OF Cons.prems] show ?thesis by (simp add: split_def Let_def)
  qed
qed

lemma allSettled_allRed:
  "cacheAllRed s \<Longrightarrow> cacheAllRed (snd (allSettledChecks analyze now stamp addrs s))"
  unfolding allSettledChecks_def by (rule settle_allRed)

lemma start_allRed:
  assumes "cacheAllRed s"
  shows "cacheAllRed (snd (startMonitoring analyze now stamp a s))"
proof -
  let ?s1 = "s\<lparr> monitoredContracts := monitoredContracts s @ [a] \<rparr>"
  from assms have "cacheAllRed ?s1" by (simp add: cacheAllRed_def)
  then have "cacheAllRed (snd (checkContract analyze now stamp a ?s1))"
    by (rule check_allRed)
  with assms show ?thesis
    by (auto simp add: startMonitoring_def Let_def split: prod.splits sum.splits)
qed

lemma stop_allRed:
  "cacheAllRed s \<Longrightarrow> cacheAllRed (stopMonitoring a s)"
  by (simp add: cacheAllRed_def stopMonitoring_def Let_def)

lemma flag_snd:
  "snd (flagUnsafeInteractions analyze now stamp a s) = snd (checkContract analyze now stamp a s)"
  by (simp add: flagUnsafeInteractions_def split: prod.splits sum.splits)

lemma reachable_allRed: "reachable s \<Longrightarrow> cacheAllRed s"
proof (induction rule: reachable.induct)
  case reach_new
  show ?case by (simp add: cacheAllRed_def newRugPullChecker_def)
next
  case (reach_check s analyze now stamp a)
  then show ?case by (simp add: check_allRed)
next
  case (reach_start s analyze now stamp a)
  then show ?case by (simp add: start_allRed)
next
  case (reach_stop s a)
  then show ?case by (simp add: stop_allRed)
next
  case (reach_sync s analyze now stamp)
  then show ?case by (simp add: syncLiveMetadata_snd allSettled_allRed)
next
  case (reach_flag s analyze now stamp a)
  then show ?case by (simp add: flag_snd check_allRed)
next
  case (reach_rankings s analyze now stamp as)
  then show ?case by (simp add: getTrustRankings_snd allSettled_allRed)
qed

lemma allRed_consistent: "cacheAllRed s \<Longrightarrow> cacheConsistent s"
  by (simp add: cacheAllRed_def cacheConsistent_def)

lemma reachable_consistent: "reachable s \<Longrightarrow> cacheConsistent s"
  by (simp add: reachable_allRed allRed_consistent)

lemma check_result_cases:
  assumes "checkContract analyze now stamp a s = (Inr r, s')"
  shows "(checkCache s a = Some r \<and> s' = s)
         \<or> checkContract_fresh (analyze a) stamp a s = (Inr r, s')"
  using assms
  by (auto simp add: checkContract_def checkContract_cached_def split: option.splits if_splits)

lemma check_result_consistent:
  assumes "cacheConsistent s" and "checkContract analyze now stamp a s = (Inr r, s')"
  shows "isUnsafe r = (riskLevel r = Red)"
  using check_result_cases [OF assms(2)] assms(1) fresh_Inr(4,5) [of "analyze a" stamp a s r s']
  by (auto simp add: cacheConsistent_def)

lemma check_result_Red:
  assumes "cacheAllRed s" and "checkContract analyze now stamp a s = (Inr r, s')"
  shows "riskLevel r = Red \<and> isUnsafe r"
  using check_result_cases [OF assms(2)] assms(1) fresh_Inr(4,5) [of "analyze a" stamp a s r s']
  by (auto simp add: cacheAllRed_def)

lemma critical_check:
  "checkContract (\<lambda>a. Inr criticalRiskIndicators) now stamp a newRugPullChecker =
     (Inr (criticalResult a stamp), cachedChecker (criticalResult a stamp))"
  by (simp add: checkContract_def checkContract_cached_def checkContract_fresh_def
      newRugPullChecker_def Let_def calculateTrustLevel_def generateMiterSignals_def
      criticalResult_def criticalRiskIndicators_def cachedChecker_def)

lemma cached_check:
  assumes "isCacheValid now (timestamp r)"
  shows "checkContract analyze now stamp (contractAddress r) (cachedChecker r)
           = (Inr r, cachedChecker r)"
  using assms by (intro check_hit) (simp_all add: cachedChecker_def)

lemma cachedChecker_consistent:
  "isUnsafe r = (riskLevel r = Red) \<Longrightarrow> cacheConsistent (cachedChecker r)"
  by (simp add: cacheConsistent_def cachedChecker_def)

text \<open>
  C9, as the claim states it: the test of the rug-pull risk against 70 is made
  independently of the tier, so that the reason names the most specific cause. For a
  verified contract with a rug-pull risk of 80 the tier is Red, the first test returns,
  and the reason is the one of the tier with the advisory tags, not the text of the
  risk test.
\<close>

theorem flagUnsafeInteractions_reason_counterexample:
  "fst (flagUnsafeInteractions (\<lambda>a. Inr criticalRiskIndicators) 1000 1000 ''0xabc''
          newRugPullChecker)
     = Inr \<lparr> shouldBlock = True,
             reason = ''Contract flagged as red: HIGH_RISK, CRITICAL_RUG_RISK'' \<rparr>"
  by (simp add: flagUnsafeInteractions_def critical_check criticalResult_def
      trustLevelString_def)

text \<open>
  C9, amended: when the evaluation of the address is fulfilled with result \<open>r\<close>,
  \<open>flagUnsafeInteractions\<close> is fulfilled and blocks exactly when the tier is Red, or
  a honeypot is detected, or the rug-pull risk is above 70. The tier is tested first:
  for a Red result the reason is \<open>Contract flagged as red: \<close> followed by the advisory
  tags joined with a comma and a blank, whatever the honeypot flag and the rug-pull risk
  are, and every result of a reachable state is Red. The honeypot test and the risk
  test give their own reasons only for a result that is not Red, and when none of the
  three tests holds the interaction is not blocked.
\<close>

theorem flagUnsafeInteractions_tier_first:
  assumes "cacheConsistent s" and "checkContract analyze now stamp a s = (Inr r, s')"
  shows "\<exists>fl. flagUnsafeInteractions analyze now stamp a s = (Inr fl, s')
     \<and> (shouldBlock fl \<longleftrightarrow> riskLevel r = Red \<or> honeypotDetected (indicators r)
                              \<or> rugPullRisk (indicators r) > Finite 70)
     \<and> (riskLevel r = Red \<longrightarrow>
          reason fl = ''Contract flagged as red: '' @ Array_join '', '' (miterSignals r))
     \<and> (reachable s \<longrightarrow> riskLevel r = Red)
     \<and> (riskLevel r \<noteq> Red \<and> honeypotDetected (indicators r) \<longrightarrow>
          reason fl = ''Honeypot detected - transaction may not be reversible'')
     \<and> (riskLevel r \<noteq> Red \<and> \<not> honeypotDetected (indicators r)
          \<and> rugPullRisk (indicators r) > Finite 70 \<longrightarrow>
          reason fl = ''Critical rug pull risk detected'')
     \<and> (\<not> shouldBlock fl \<longrightarrow> reason fl = ''Contract passed safety checks'')"
proof -
  from check_result_consistent [OF assms] have u: "isUnsafe r = (riskLevel r = Red)" .
  have red: "reachable s \<longrightarrow> riskLevel r = Red"
    using check_result_Red [OF reachable_allRed assms(2)] by blast
  show ?thesis
    using assms(2) u red
    by (simp add: flagUnsafeInteractions_def trustLevelString_def)
qed

theorem flagUnsafeInteractions_tier_first_witness:
  "fst (flagUnsafeInteractions (\<lambda>a. Inr criticalRiskIndicators) 1000 1000 ''0xabc''
          newRugPullChecker)
     = Inr \<lparr> shouldBlock = True,
             reason = ''Contract flagged as red: HIGH_RISK, CRITICAL_RUG_RISK'' \<rparr>
   \<and> fst (flagUnsafeInteractions analyzeContract 2000 2000 ''0xabc''
          (cachedChecker (greenResult ''0xabc'' 1000)))
     = Inr \<lparr> shouldBlock = False, reason = ''Contract passed safety checks'' \<rparr>
   \<and> fst (flagUnsafeInteractions analyzeContract 2000 2000 ''0xabc''
          (cachedChecker (yellowCriticalResult ''0xabc'' 1000)))
     = Inr \<lparr> shouldBlock = True, reason = ''Critical rug pull risk detected'' \<rparr>"
proof -
  have c0: "cacheConsistent newRugPullChecker"
    by (simp add: cacheConsistent_def newRugPullChecker_def)
  from flagUnsafeInteractions_tier_first
         [OF c0 critical_check [of 1000 1000 "''0xabc''"]]
  obtain f1 where f1:
    "flagUnsafeInteractions (\<lambda>a. Inr criticalRiskIndicators) 1000 1000 ''0xabc''
       newRugPullChecker = (Inr f1, cachedChecker (criticalResult ''0xabc'' 1000))"
    "shouldBlock f1"
    "reason f1 = ''Contract flagged as red: HIGH_RISK, CRITICAL_RUG_RISK''"
    by (auto simp add: criticalResult_def)
  have c2: "cacheConsistent (cachedChecker (greenResult ''0xabc'' 1000))"
    by (rule cachedChecker_consistent) (simp add: greenResult_def)
  have h2: "checkContract analyzeContract 2000 2000 ''0xabc''
              (cachedChecker (greenResult ''0xabc'' 1000))
            = (Inr (greenResult ''0xabc'' 1000), cachedChecker (greenResult ''0xabc'' 1000))"
    using cached_check [of 2000 "greenResult ''0xabc'' 1000" analyzeContract 2000]
    by (simp add: greenResult_def isCacheValid_iff)
  from flagUnsafeInteractions_tier_first [OF c2 h2]
  obtain f2 where f2:
    "flagUnsafeInteractions analyzeContract 2000 2000 ''0xabc''
       (cachedChecker (greenResult ''0xabc'' 1000))
     = (Inr f2, cachedChecker (greenResult ''0xabc'' 1000))"
    "\<not> shouldBlock f2"
    "reason f2 = ''Contract passed safety checks''"
    by (auto simp add: greenResult_def perfectIndicators_def)
  have c3: "cacheConsistent (cachedChecker (yellowCriticalResult ''0xabc'' 1000))"
    by (rule cachedChecker_consistent) (simp add: yellowCriticalResult_def)
  have h3: "checkContract analyzeContract 2000 2000 ''0xabc''
              (cachedChecker (yellowCriticalResult ''0xabc'' 1000))
            = (Inr (yellowCriticalResult ''0xabc'' 1000),
               cachedChecker (yellowCriticalResult ''0xabc'' 1000))"
    using cached_check [of 2000 "yellowCriticalResult ''0xabc'' 1000" analyzeContract 2000]
    by (simp add: yellowCriticalResult_def isCacheValid_iff)
  from flagUnsafeInteractions_tier_first [OF c3 h3]
  obtain f3 where f3:
    "flagUnsafeInteractions analyzeContract 2000 2000 ''0xabc''
       (cachedChecker (yellowCriticalResult ''0xabc'' 1000))
     = (Inr f3, cachedChecker (yellowCriticalResult ''0xabc'' 1000))"
    "shouldBlock f3"
    "reason f3 = ''Critical rug pull risk detected''"
    by (auto simp add: yellowCriticalResult_def criticalRiskIndicators_def)
  have "f1 = \<lparr> shouldBlock = True,
             reason = ''Contract flagged as red: HIGH_RISK, CRITICAL_RUG_RISK'' \<rparr>"
    using f1(2,3) by (cases f1) simp
  moreover have "f2 = \<lparr> shouldBlock = False, reason = ''Contract passed safety checks'' \<rparr>"
    using f2(2,3) by (cases f2) simp
  moreover have "f3 = \<lparr> shouldBlock = True, reason = ''Critical rug pull risk detected'' \<rparr>"
    using f3(2,3) by (cases f3) simp
  ultimately show ?thesis using f1(1) f2(1) f3(1) by simp
qed

lemma perfect_check:
  "checkContract (\<lambda>a. Inr perfectIndicators) now stamp a newRugPullChecker =
     (Inr (perfectResult a stamp),
      newRugPullChecker\<lparr> checkCache := [a \<mapsto> perfectResult a stamp] \<rparr>)"
  by (simp add: checkContract_def checkContract_cached_def checkContract_fresh_def
      newRugPullChecker_def Let_def calculateTrustLevel_def generateMiterSignals_def
      perfectResult_def perfectIndicators_def)

lemma perfect_score: "calculateSafetyScore perfectIndicators = Finite 95"
  by (simp add: calculateSafetyScore_steps baseScore_def indicator_def perfectIndicators_def
      literal_value Math_round_def Math_max_def Math_min_def)

text \<open>
  C10: in every state the service can reach, every result that \<open>checkContract\<close>
  returns is Red and unsafe, for every address, provider and clock: the metadata given
  to the classifier has contract age 0, below both minimum ages.
\<close>

theorem checkContract_always_Red:
  assumes "reachable s" and "checkContract analyze now stamp a s = (Inr r, s')"
  shows "riskLevel r = Red \<and> isUnsafe r"
  using reachable_allRed [OF assms(1)] assms(2) by (rule check_result_Red)

theorem checkContract_always_Red_witness:
  "reachable newRugPullChecker
   \<and> checkContract (\<lambda>a. Inr perfectIndicators) 1000 1000 ''0xabc'' newRugPullChecker
       = (Inr (perfectResult ''0xabc'' 1000),
          newRugPullChecker\<lparr> checkCache := [''0xabc'' \<mapsto> perfectResult ''0xabc'' 1000] \<rparr>)
   \<and> riskLevel (perfectResult ''0xabc'' 1000) = Red
   \<and> isUnsafe (perfectResult ''0xabc'' 1000)"
  using checkContract_always_Red [OF reach_new perfect_check [of 1000 1000 "''0xabc''"]] reach_new
    perfect_check [of 1000 1000 "''0xabc''"]
  by simp

end
